theory Spec2Isabelle
  imports Main "HOL-Library.AList" "HOL-Library.Char_ord" "HOL-Library.List_Lexorder"
begin

section \<open>The checkpoints manager of \<^verbatim>\<open>src/checkpoints_manager.py\<close>\<close>

text \<open>
  The class \<^verbatim>\<open>CheckpointsManager\<close> keeps its checkpoints in a directory tree
  \<^verbatim>\<open>experiment_dir/run_XX/<module name>/YY.pth\<close>. Everything it does goes through
  \<^verbatim>\<open>os.listdir\<close>, \<^verbatim>\<open>os.path.isdir\<close>, \<^verbatim>\<open>os.makedirs\<close>, \<^verbatim>\<open>torch.save\<close> and
  \<^verbatim>\<open>torch.load\<close>, so the embedding has three layers: the Python string functions the
  code calls, a file system, and the methods of the class with the object and the file
  system passed explicitly.
\<close>

subsection \<open>Exceptions\<close>

text \<open>
  Every \<^verbatim>\<open>raise\<close> is a value. \<open>RuntimeError\<close> is what \<^verbatim>\<open>torch.save\<close> raises, and stands
  for whatever a hook of a tracked module raises.
\<close>

datatype error =
    FileExistsError
  | FileNotFoundError
  | NotADirectoryError
  | IsADirectoryError
  | ValueError
  | TypeError
  | NameError
  | IndexError
  | RuntimeError

subsection \<open>Python strings\<close>

text \<open>
  Names are ASCII strings; \<^verbatim>\<open>sorted\<close> compares them character by character, which is
  the order of \<open>List_Lexorder\<close> over \<open>Char_ord\<close>.
\<close>

definition digit_char :: "nat \<Rightarrow> char" where
  "digit_char d = ''0123456789'' ! (d mod 10)"

function dec :: "nat \<Rightarrow> string" where
  "dec n = (if n < 10 then [digit_char n] else dec (n div 10) @ [digit_char (n mod 10)])"
  by pat_completeness auto
termination
  by (relation "measure id") auto

declare dec.simps [simp del]

text \<open>The format \<^verbatim>\<open>f'{i:02d}'\<close>: at least two characters, the sign counted, zeros on the left.\<close>

definition fmt02d :: "int \<Rightarrow> string" where
  "fmt02d i =
     (if i < 0 then CHR ''-'' # dec (nat (- i))
      else (let s = dec (nat i) in if length s < 2 then CHR ''0'' # s else s))"

text \<open>
  \<^verbatim>\<open>s.split(c)\<close> for a one-character separator: never an empty list. The code reads
  \<^verbatim>\<open>[-1]\<close> and \<^verbatim>\<open>[0]\<close> of it.
\<close>

fun py_split :: "char \<Rightarrow> string \<Rightarrow> string list" where
  "py_split c [] = [[]]"
| "py_split c (x # xs) =
     (if x = c then [] # py_split c xs
      else (case py_split c xs of [] \<Rightarrow> [[x]] | w # ws \<Rightarrow> (x # w) # ws))"

definition py_first :: "'a list \<Rightarrow> error + 'a" where
  "py_first xs = (case xs of [] \<Rightarrow> Inl IndexError | x # _ \<Rightarrow> Inr x)"

definition py_last :: "'a list \<Rightarrow> error + 'a" where
  "py_last xs = (case xs of [] \<Rightarrow> Inl IndexError | _ # _ \<Rightarrow> Inr (last xs))"

text \<open>
  \<^verbatim>\<open>int(s)\<close> for an ASCII string: white space (tab, line feed, vertical tab, form feed,
  carriage return, space) stripped on both sides, an optional sign, then decimal digits,
  single underscores allowed between two digits; \<^verbatim>\<open>ValueError\<close> otherwise.
\<close>

definition is_space :: "char \<Rightarrow> bool" where
  "is_space c = (of_char c \<in> {9::nat, 10, 11, 12, 13, 32})"

definition strip :: "string \<Rightarrow> string" where
  "strip s = rev (dropWhile is_space (rev (dropWhile is_space s)))"

definition digit_val :: "char \<Rightarrow> nat option" where
  "digit_val c =
     map_of [(CHR ''0'', 0), (CHR ''1'', 1), (CHR ''2'', 2), (CHR ''3'', 3), (CHR ''4'', 4),
             (CHR ''5'', 5), (CHR ''6'', 6), (CHR ''7'', 7), (CHR ''8'', 8), (CHR ''9'', 9)] c"

fun py_digits :: "nat \<Rightarrow> string \<Rightarrow> nat option" where
  "py_digits acc [] = Some acc"
| "py_digits acc [c] =
     (case digit_val c of None \<Rightarrow> None | Some v \<Rightarrow> Some (10 * acc + v))"
| "py_digits acc (c # d # ds) =
     (if c = CHR ''_'' then
        (case digit_val d of None \<Rightarrow> None | Some v \<Rightarrow> py_digits (10 * acc + v) ds)
      else (case digit_val c of None \<Rightarrow> None | Some v \<Rightarrow> py_digits (10 * acc + v) (d # ds)))"

definition py_nat :: "string \<Rightarrow> nat option" where
  "py_nat s =
     (case s of [] \<Rightarrow> None
      | c # cs \<Rightarrow> (case digit_val c of None \<Rightarrow> None | Some v \<Rightarrow> py_digits v cs))"

definition py_int :: "string \<Rightarrow> error + int" where
  "py_int s =
     (case strip s of [] \<Rightarrow> Inl ValueError
      | c # cs \<Rightarrow>
          if c = CHR ''-'' then
            (case py_nat cs of None \<Rightarrow> Inl ValueError | Some n \<Rightarrow> Inr (- int n))
          else if c = CHR ''+'' then
            (case py_nat cs of None \<Rightarrow> Inl ValueError | Some n \<Rightarrow> Inr (int n))
          else
            (case py_nat (c # cs) of None \<Rightarrow> Inl ValueError | Some n \<Rightarrow> Inr (int n)))"

subsection \<open>The file system\<close>

text \<open>
  A path is the list of its components, \<^verbatim>\<open>os.path.join(p, name)\<close> is \<open>p @ [name]\<close> and
  \<^verbatim>\<open>os.path.basename\<close> the last component: names of modules and of directory entries
  are plain file names. The file system is a finite table from paths to entries; the empty
  path is the directory every path starts from, which always exists. A checkpoint file
  holds the state dictionary that \<^verbatim>\<open>torch.save\<close> was given.
\<close>

type_synonym path = "string list"

type_synonym blob = string

datatype entry = File blob | Dir

type_synonym fs = "(path \<times> entry) list"

definition lookup :: "fs \<Rightarrow> path \<Rightarrow> entry option" where
  "lookup fs p = (if p = [] then Some Dir else map_of fs p)"

definition isdir :: "fs \<Rightarrow> path \<Rightarrow> bool" where
  "isdir fs p = (lookup fs p = Some Dir)"

definition basename :: "path \<Rightarrow> string" where
  "basename p = (if p = [] then [] else last p)"

text \<open>
  A plain file name: not empty, not \<^verbatim>\<open>.\<close> or \<^verbatim>\<open>..\<close>, without a separator and without a
  null character. Only for such a name is \<^verbatim>\<open>os.path.join(p, name)\<close> the path \<open>p @ [name]\<close>
  (joined with the empty name or with \<^verbatim>\<open>.\<close> it is \<open>p\<close> again, with \<^verbatim>\<open>..\<close> the parent, and
  a name with a separator is several components). The entries that \<^verbatim>\<open>os.listdir\<close>
  returns and the run names \<^verbatim>\<open>run_NN\<close> are plain; the keys of \<open>modules_to_track\<close> are the
  caller's, and the statements that depend on the paths made from them require them plain.
\<close>

definition plain_name :: "string \<Rightarrow> bool" where
  "plain_name n =
     (n \<noteq> [] \<and> n \<noteq> ''.'' \<and> n \<noteq> ''..'' \<and> CHR ''/'' \<notin> set n \<and> CHR 0x00 \<notin> set n)"

text \<open>
  \<^verbatim>\<open>os.listdir\<close>: the names of the entries of a directory, each once, in an order the
  caller must not rely on (the code sorts the list or takes its length).
\<close>

definition listdir :: "fs \<Rightarrow> path \<Rightarrow> error + string list" where
  "listdir fs p =
     (case lookup fs p of
        None \<Rightarrow> Inl FileNotFoundError
      | Some (File b) \<Rightarrow> Inl NotADirectoryError
      | Some Dir \<Rightarrow> Inr (remdups (map last (filter (\<lambda>q. q \<noteq> [] \<and> butlast q = p) (map fst fs)))))"

definition mkdir :: "fs \<Rightarrow> path \<Rightarrow> error + fs" where
  "mkdir fs p =
     (if lookup fs p \<noteq> None then Inl FileExistsError
      else (case lookup fs (butlast p) of
              None \<Rightarrow> Inl FileNotFoundError
            | Some (File b) \<Rightarrow> Inl NotADirectoryError
            | Some Dir \<Rightarrow> Inr (AList.update p Dir fs)))"

text \<open>
  \<^verbatim>\<open>os.makedirs(name, exist_ok)\<close> as CPython writes it: the missing parents first
  (a \<^verbatim>\<open>FileExistsError\<close> of that step is swallowed), then \<^verbatim>\<open>mkdir\<close>, whose error is
  swallowed only under \<^verbatim>\<open>exist_ok\<close> when the path is a directory. The file system comes
  back also when the call raises: the parents made so far stay.
\<close>

function makedirs :: "bool \<Rightarrow> path \<Rightarrow> fs \<Rightarrow> (error + unit) \<times> fs" where
  "makedirs exist_ok p fs =
     (let (r, fs1) =
            (if p \<noteq> [] \<and> lookup fs (butlast p) = None
             then (case makedirs exist_ok (butlast p) fs of
                     (Inl FileExistsError, fs') \<Rightarrow> (Inr (), fs')
                   | other \<Rightarrow> other)
             else (Inr (), fs))
      in (case r of
            Inl e \<Rightarrow> (Inl e, fs1)
          | Inr u \<Rightarrow>
              (case mkdir fs1 p of
                 Inr fs2 \<Rightarrow> (Inr (), fs2)
               | Inl e \<Rightarrow> if \<not> exist_ok \<or> \<not> isdir fs1 p then (Inl e, fs1) else (Inr (), fs1))))"
  by pat_completeness auto
termination
  by (relation "measure (\<lambda>(e, p, fs). length p)") auto

declare makedirs.simps [simp del]

text \<open>
  \<^verbatim>\<open>torch.save(obj, path)\<close> opens the path for writing: the parent must be a directory
  and the path itself must not be one; where its file writer cannot open the path it raises
  \<^verbatim>\<open>RuntimeError\<close>. \<^verbatim>\<open>torch.load(path)\<close> reads a file back through \<^verbatim>\<open>open\<close>.
\<close>

definition torch_save :: "blob \<Rightarrow> path \<Rightarrow> fs \<Rightarrow> error + fs" where
  "torch_save b p fs =
     (case lookup fs p of
        Some Dir \<Rightarrow> Inl RuntimeError
      | _ \<Rightarrow> (case lookup fs (butlast p) of
                None \<Rightarrow> Inl RuntimeError
              | Some (File c) \<Rightarrow> Inl RuntimeError
              | Some Dir \<Rightarrow> Inr (AList.update p (File b) fs)))"


subsection \<open>The manager object\<close>

text \<open>
  The fields of \<^verbatim>\<open>__init__\<close>. \<open>modules_to_track\<close> is a Python dictionary: its items in
  insertion order. \<open>start_epoch\<close> and \<open>current_run_dir_path\<close> are \<^verbatim>\<open>None\<close> until the
  first scan sets them. The tracked modules are objects of the caller; what the manager
  needs of them are the two hooks \<^verbatim>\<open>state_dict()\<close> and \<^verbatim>\<open>load_state_dict(blob)\<close>, either
  of which may raise. A hook reads or replaces the state of its module and touches neither
  the manager nor the file system.
\<close>

record 'm manager =
  modules_to_track :: "(string \<times> 'm) list"
  experiment_dir_path :: path
  epochs_per_run :: int
  verbose :: bool
  start_epoch :: "int option"
  current_run_dir_path :: "path option"

record 'm hooks =
  state_dict :: "'m \<Rightarrow> error + blob"
  load_state_dict :: "'m \<Rightarrow> blob \<Rightarrow> error + 'm"

definition get_checkpoint_module_path :: "'m manager \<Rightarrow> string \<Rightarrow> int \<Rightarrow> error + path" where
  "get_checkpoint_module_path m name epoch =
     (case current_run_dir_path m of
        None \<Rightarrow> Inl TypeError
      | Some d \<Rightarrow> Inr (d @ [name, fmt02d epoch @ ''.pth'']))"

definition get_number_of_runs :: "'m manager \<Rightarrow> fs \<Rightarrow> error + int" where
  "get_number_of_runs m fs =
     (case listdir fs (experiment_dir_path m) of
        Inl e \<Rightarrow> Inl e
      | Inr run_dir_list \<Rightarrow> Inr (int (length run_dir_list)))"

definition get_start_epoch :: "'m manager \<Rightarrow> int option" where
  "get_start_epoch m = start_epoch m"

text \<open>
  \<^verbatim>\<open>def get_current_run_dir_path(slef): return self.current_run_dir_path\<close>: the
  parameter is spelled \<^verbatim>\<open>slef\<close>, so \<^verbatim>\<open>self\<close> in the body is a global name that the
  module does not define.
\<close>

definition get_current_run_dir_path :: "'m manager \<Rightarrow> error + path option" where
  "get_current_run_dir_path slef = Inl NameError"

definition get_run_index_from_path :: "path \<Rightarrow> error + int" where
  "get_run_index_from_path run_dir_path =
     (case py_last (py_split CHR ''_'' (basename run_dir_path)) of
        Inl e \<Rightarrow> Inl e
      | Inr s \<Rightarrow> py_int s)"

definition run_dir_name :: "int \<Rightarrow> string" where
  "run_dir_name index = ''run_'' @ fmt02d index"

text \<open>The loop of \<^verbatim>\<open>make_run_dir\<close> over the tracked names.\<close>

fun make_checkpoint_dirs :: "path \<Rightarrow> string list \<Rightarrow> fs \<Rightarrow> (error + unit) \<times> fs" where
  "make_checkpoint_dirs run_dir_path [] fs = (Inr (), fs)"
| "make_checkpoint_dirs run_dir_path (module_name # rest) fs =
     (case makedirs False (run_dir_path @ [module_name]) fs of
        (Inl e, fs1) \<Rightarrow> (Inl e, fs1)
      | (Inr u, fs1) \<Rightarrow> make_checkpoint_dirs run_dir_path rest fs1)"

definition make_run_dir :: "'m manager \<Rightarrow> int \<Rightarrow> fs \<Rightarrow> (error + unit) \<times> 'm manager \<times> fs" where
  "make_run_dir m index fs =
     (let run_dir_path = experiment_dir_path m @ [run_dir_name index] in
      case makedirs False run_dir_path fs of
        (Inl e, fs1) \<Rightarrow> (Inl e, m, fs1)
      | (Inr u, fs1) \<Rightarrow>
          (case make_checkpoint_dirs run_dir_path (map fst (modules_to_track m)) fs1 of
             (Inl e, fs2) \<Rightarrow> (Inl e, m, fs2)
           | (Inr u, fs2) \<Rightarrow>
               (Inr (), m\<lparr>start_epoch := Some 0, current_run_dir_path := Some run_dir_path\<rparr>, fs2)))"

definition get_last_run_dir_path :: "'m manager \<Rightarrow> fs \<Rightarrow> error + path" where
  "get_last_run_dir_path m fs =
     (case listdir fs (experiment_dir_path m) of
        Inl e \<Rightarrow> Inl e
      | Inr names \<Rightarrow>
          (case py_last (sort names) of
             Inl e \<Rightarrow> Inl e
           | Inr last_run_dir \<Rightarrow> Inr (experiment_dir_path m @ [last_run_dir])))"

text \<open>
  The method \<^verbatim>\<open>_get_last_epoch_index(dir_path)\<close> (an Isabelle name cannot start with
  an underscore).
\<close>

definition dir_get_last_epoch_index :: "fs \<Rightarrow> path \<Rightarrow> error + int" where
  "dir_get_last_epoch_index fs dir_path =
     (if \<not> isdir fs dir_path then Inl NotADirectoryError
      else (case listdir fs dir_path of
              Inl e \<Rightarrow> Inl e
            | Inr names \<Rightarrow>
                (case sort names of
                   [] \<Rightarrow> Inr (- 1)
                 | c # cs \<Rightarrow>
                     (case py_first (py_split CHR ''.'' (last (c # cs))) of
                        Inl e \<Rightarrow> Inl e
                      | Inr s \<Rightarrow> py_int s))))"

definition get_last_epoch_index :: "'m manager \<Rightarrow> fs \<Rightarrow> path \<Rightarrow> error + int" where
  "get_last_epoch_index m fs run_dir_path =
     (case dir_get_last_epoch_index fs (run_dir_path @ [''model'']) of
        Inl e \<Rightarrow> Inl e
      | Inr a \<Rightarrow>
          (case dir_get_last_epoch_index fs (run_dir_path @ [''optimizer'']) of
             Inl e \<Rightarrow> Inl e
           | Inr b \<Rightarrow>
               (case dir_get_last_epoch_index fs (run_dir_path @ [''scheduler'']) of
                  Inl e \<Rightarrow> Inl e
                | Inr c \<Rightarrow> Inr (min a (min b c)))))"

definition is_checkpoint_dir_full :: "'m manager \<Rightarrow> fs \<Rightarrow> path \<Rightarrow> error + bool" where
  "is_checkpoint_dir_full m fs checkpoints_dir_path =
     (case get_last_epoch_index m fs checkpoints_dir_path of
        Inl e \<Rightarrow> Inl e
      | Inr last_epoch \<Rightarrow> Inr (last_epoch = epochs_per_run m - 1))"

definition is_run_completed :: "'m manager \<Rightarrow> fs \<Rightarrow> path \<Rightarrow> error + bool" where
  "is_run_completed m fs run_dir_path =
     (case is_checkpoint_dir_full m fs run_dir_path of
        Inl e \<Rightarrow> Inl e
      | Inr full \<Rightarrow> Inr (if full then True else False))"

definition scan_experiment_dir :: "'m manager \<Rightarrow> fs \<Rightarrow> (error + unit) \<times> 'm manager \<times> fs" where
  "scan_experiment_dir m fs =
     (case get_number_of_runs m fs of
        Inl e \<Rightarrow> (Inl e, m, fs)
      | Inr num_runs \<Rightarrow>
          if num_runs = 0 then make_run_dir m 0 fs
          else
            (case get_last_run_dir_path m fs of
               Inl e \<Rightarrow> (Inl e, m, fs)
             | Inr last_run_dir_path \<Rightarrow>
                 (case is_run_completed m fs last_run_dir_path of
                    Inl e \<Rightarrow> (Inl e, m, fs)
                  | Inr True \<Rightarrow>
                      (case get_run_index_from_path last_run_dir_path of
                         Inl e \<Rightarrow> (Inl e, m, fs)
                       | Inr i \<Rightarrow> make_run_dir m (i + 1) fs)
                  | Inr False \<Rightarrow>
                      (let m1 = m\<lparr>current_run_dir_path := Some last_run_dir_path\<rparr> in
                       case get_last_epoch_index m1 fs last_run_dir_path of
                         Inl e \<Rightarrow> (Inl e, m1, fs)
                       | Inr l \<Rightarrow> (Inr (), m1\<lparr>start_epoch := Some (l + 1)\<rparr>, fs)))))"

text \<open>
  \<^verbatim>\<open>__init__\<close>: the root is made if it is missing, the two cursor fields start as
  \<^verbatim>\<open>None\<close>, and the directory is scanned. A constructor that raises gives no object.
\<close>

definition init ::
  "(string \<times> 'm) list \<Rightarrow> path \<Rightarrow> int \<Rightarrow> bool \<Rightarrow> fs \<Rightarrow> (error + 'm manager) \<times> fs" where
  "init modules root epochs verb fs =
     (case makedirs True root fs of
        (Inl e, fs1) \<Rightarrow> (Inl e, fs1)
      | (Inr u, fs1) \<Rightarrow>
          (case scan_experiment_dir
                  \<lparr>modules_to_track = modules, experiment_dir_path = root,
                   epochs_per_run = epochs, verbose = verb,
                   start_epoch = None, current_run_dir_path = None\<rparr> fs1 of
             (Inl e, m, fs2) \<Rightarrow> (Inl e, fs2)
           | (Inr u, m, fs2) \<Rightarrow> (Inr m, fs2)))"



text \<open>The loop of \<^verbatim>\<open>save_checkpoint\<close>: the files written before a failure stay.\<close>

fun save_modules ::
  "'m hooks \<Rightarrow> 'm manager \<Rightarrow> (string \<times> 'm) list \<Rightarrow> fs \<Rightarrow> (error + unit) \<times> fs" where
  "save_modules h m [] fs = (Inr (), fs)"
| "save_modules h m ((module_name, module) # rest) fs =
     (case start_epoch m of
        None \<Rightarrow> (Inl TypeError, fs)
      | Some epoch \<Rightarrow>
          (case get_checkpoint_module_path m module_name epoch of
             Inl e \<Rightarrow> (Inl e, fs)
           | Inr checkpoint_module_path \<Rightarrow>
               (case state_dict h module of
                  Inl e \<Rightarrow> (Inl e, fs)
                | Inr b \<Rightarrow>
                    (case torch_save b checkpoint_module_path fs of
                       Inl e \<Rightarrow> (Inl e, fs)
                     | Inr fs1 \<Rightarrow> save_modules h m rest fs1))))"

definition save_checkpoint ::
  "'m hooks \<Rightarrow> 'm manager \<Rightarrow> fs \<Rightarrow> (error + unit) \<times> 'm manager \<times> fs" where
  "save_checkpoint h m fs =
     (case save_modules h m (modules_to_track m) fs of
        (Inl e, fs1) \<Rightarrow> (Inl e, m, fs1)
      | (Inr u, fs1) \<Rightarrow>
          (case start_epoch m of
             None \<Rightarrow> (Inl TypeError, m, fs1)
           | Some epoch \<Rightarrow>
               (let m1 = m\<lparr>start_epoch := Some (epoch + 1)\<rparr> in
                if epoch + 1 = epochs_per_run m1 then
                  (case current_run_dir_path m1 of
                     None \<Rightarrow> (Inl TypeError, m1, fs1)
                   | Some d \<Rightarrow>
                       (case get_run_index_from_path d of
                          Inl e \<Rightarrow> (Inl e, m1, fs1)
                        | Inr current_run_index \<Rightarrow> make_run_dir m1 (current_run_index + 1) fs1))
                else (Inr (), m1, fs1))))"

subsection \<open>Notions used in the statements\<close>

text \<open>A decimal digit, and the value of a string of digits read from the left.\<close>

definition is_digit :: "char \<Rightarrow> bool" where
  "is_digit c = (digit_val c \<noteq> None)"

definition digits_val :: "nat \<Rightarrow> string \<Rightarrow> nat" where
  "digits_val acc s = foldl (\<lambda>a c. 10 * a + the (digit_val c)) acc s"

text \<open>
  A checkpoint directory that holds the files \<^verbatim>\<open>NN.pth\<close> of the epochs \<open>js\<close> and
  nothing else, and the highest epoch index among them (\<open>- 1\<close> when there is none).
\<close>

definition epoch_file :: "int \<Rightarrow> string" where
  "epoch_file i = fmt02d i @ ''.pth''"

definition epoch_files :: "nat list \<Rightarrow> string list" where
  "epoch_files js = map (\<lambda>j. epoch_file (int j)) js"

definition holds_epochs :: "fs \<Rightarrow> path \<Rightarrow> nat list \<Rightarrow> bool" where
  "holds_epochs fs d js =
     (case listdir fs d of Inl e \<Rightarrow> False | Inr names \<Rightarrow> set names = set (epoch_files js))"

definition highest_index :: "nat list \<Rightarrow> int" where
  "highest_index js = (if js = [] then - 1 else int (Max (set js)))"

text \<open>
  A file system is well formed when every entry lies in a directory: what \<^verbatim>\<open>mkdir\<close>
  and \<^verbatim>\<open>torch.save\<close> keep true.
\<close>

definition wf_fs :: "fs \<Rightarrow> bool" where
  "wf_fs fs = list_all (\<lambda>q. isdir fs (butlast q)) (map fst fs)"

text \<open>The names in a directory, as a set; \<open>None\<close> when the path is no directory.\<close>

definition dir_names :: "fs \<Rightarrow> path \<Rightarrow> string set option" where
  "dir_names fs d = (case listdir fs d of Inl e \<Rightarrow> None | Inr names \<Rightarrow> Some (set names))"

subsection \<open>Example states\<close>

text \<open>
  Under the root \<^verbatim>\<open>exp\<close>, run 0 with the epochs 0 to 2 of \<^verbatim>\<open>model\<close> and the epochs 0 and
  1 of \<^verbatim>\<open>optimizer\<close>; the same with a \<^verbatim>\<open>scheduler\<close> directory holding the epochs 0
  and 1; and a manager of budget 3 that tracks the three.
\<close>

definition fs_two_components :: fs where
  "fs_two_components =
     [([''exp''], Dir), ([''exp'', ''run_00''], Dir),
      ([''exp'', ''run_00'', ''model''], Dir),
      ([''exp'', ''run_00'', ''optimizer''], Dir),
      ([''exp'', ''run_00'', ''model'', ''00.pth''], File ''m0''),
      ([''exp'', ''run_00'', ''model'', ''01.pth''], File ''m1''),
      ([''exp'', ''run_00'', ''model'', ''02.pth''], File ''m2''),
      ([''exp'', ''run_00'', ''optimizer'', ''00.pth''], File ''o0''),
      ([''exp'', ''run_00'', ''optimizer'', ''01.pth''], File ''o1'')]"

definition fs_three_components :: fs where
  "fs_three_components =
     fs_two_components @
     [([''exp'', ''run_00'', ''scheduler''], Dir),
      ([''exp'', ''run_00'', ''scheduler'', ''00.pth''], File ''s0''),
      ([''exp'', ''run_00'', ''scheduler'', ''01.pth''], File ''s1'')]"

definition manager_three :: "string manager" where
  "manager_three =
     \<lparr>modules_to_track = [(''model'', ''m''), (''optimizer'', ''o''), (''scheduler'', ''s'')],
      experiment_dir_path = [''exp''], epochs_per_run = 3, verbose = True,
      start_epoch = None, current_run_dir_path = None\<rparr>"

definition manager_two :: "string manager" where
  "manager_two =
     \<lparr>modules_to_track = [(''model'', ''m''), (''optimizer'', ''o'')],
      experiment_dir_path = [''exp''], epochs_per_run = 3, verbose = True,
      start_epoch = None, current_run_dir_path = None\<rparr>"

text \<open>The first example with the epoch 2 of \<^verbatim>\<open>optimizer\<close> as well: both tracked modules are at the last epoch of budget 3.\<close>

definition fs_two_complete :: fs where
  "fs_two_complete =
     fs_two_components @ [([''exp'', ''run_00'', ''optimizer'', ''02.pth''], File ''o2'')]"

text \<open>
  A manager that also tracks a module \<^verbatim>\<open>ema\<close>, and a run whose \<^verbatim>\<open>model\<close> directory holds a
  file that is no checkpoint and that has no \<^verbatim>\<open>scheduler\<close> directory.
\<close>

definition manager_ema :: "string manager" where
  "manager_ema =
     \<lparr>modules_to_track =
        [(''model'', ''m''), (''optimizer'', ''o''), (''scheduler'', ''s''), (''ema'', ''e'')],
      experiment_dir_path = [''exp''], epochs_per_run = 3, verbose = True,
      start_epoch = None, current_run_dir_path = None\<rparr>"


text \<open>
  The second example with an empty directory for a module \<^verbatim>\<open>ema\<close>, and with a stray file
  in the root.
\<close>

definition fs_ema :: fs where
  "fs_ema = fs_three_components @ [([''exp'', ''run_00'', ''ema''], Dir)]"


text \<open>A root \<^verbatim>\<open>exp\<close> that exists and is empty.\<close>

definition fs_empty_root :: fs where
  "fs_empty_root = [([''exp''], Dir)]"

text \<open>
  Hooks over modules whose state is a string: one pair that never raises, and one whose
  \<^verbatim>\<open>state_dict\<close> raises for the module in state \<^verbatim>\<open>o\<close> and whose \<^verbatim>\<open>load_state_dict\<close>
  rejects the blob \<^verbatim>\<open>o1\<close>. The manager of the examples with its cursor at epoch 2 of
  run 0.
\<close>

definition hooks_plain :: "string hooks" where
  "hooks_plain = \<lparr>state_dict = (\<lambda>x. Inr x), load_state_dict = (\<lambda>x b. Inr b)\<rparr>"

definition hooks_failing :: "string hooks" where
  "hooks_failing =
     \<lparr>state_dict = (\<lambda>x. if x = ''o'' then Inl RuntimeError else Inr x),
      load_state_dict = (\<lambda>x b. if b = ''o1'' then Inl RuntimeError else Inr b)\<rparr>"

definition manager_at_2 :: "string manager" where
  "manager_at_2 =
     manager_three\<lparr>start_epoch := Some 2, current_run_dir_path := Some [''exp'', ''run_00'']\<rparr>"

text \<open>
  Runs whose three directories hold the epochs 99 and 100, and the epochs 2 and 3.
\<close>

definition fs_sparse :: fs where
  "fs_sparse =
     [([''exp''], Dir), ([''exp'', ''run_00''], Dir),
      ([''exp'', ''run_00'', ''model''], Dir),
      ([''exp'', ''run_00'', ''optimizer''], Dir),
      ([''exp'', ''run_00'', ''scheduler''], Dir),
      ([''exp'', ''run_00'', ''model'', ''99.pth''], File ''m99''),
      ([''exp'', ''run_00'', ''model'', ''100.pth''], File ''m100''),
      ([''exp'', ''run_00'', ''optimizer'', ''99.pth''], File ''o99''),
      ([''exp'', ''run_00'', ''optimizer'', ''100.pth''], File ''o100''),
      ([''exp'', ''run_00'', ''scheduler'', ''99.pth''], File ''s99''),
      ([''exp'', ''run_00'', ''scheduler'', ''100.pth''], File ''s100'')]"

definition fs_beyond :: fs where
  "fs_beyond =
     [([''exp''], Dir), ([''exp'', ''run_00''], Dir),
      ([''exp'', ''run_00'', ''model''], Dir),
      ([''exp'', ''run_00'', ''optimizer''], Dir),
      ([''exp'', ''run_00'', ''scheduler''], Dir),
      ([''exp'', ''run_00'', ''model'', ''02.pth''], File ''m2''),
      ([''exp'', ''run_00'', ''model'', ''03.pth''], File ''m3''),
      ([''exp'', ''run_00'', ''optimizer'', ''02.pth''], File ''o2''),
      ([''exp'', ''run_00'', ''optimizer'', ''03.pth''], File ''o3''),
      ([''exp'', ''run_00'', ''scheduler'', ''02.pth''], File ''s2''),
      ([''exp'', ''run_00'', ''scheduler'', ''03.pth''], File ''s3'')]"





section \<open>Formatting and parsing\<close>

text \<open>
  What \<^verbatim>\<open>f'{i:02d}'\<close> writes, \<^verbatim>\<open>int\<close> reads back: the run index of a directory name
  and the epoch index of a checkpoint file name are the numbers they were made from.
\<close>

lemma digit_char_cases:
  "d < 10 \<Longrightarrow> d = 0 \<or> d = 1 \<or> d = 2 \<or> d = 3 \<or> d = 4 \<or> d = 5 \<or> d = 6 \<or> d = 7 \<or> d = 8 \<or> d = (9::nat)"
  by arith

lemma digit_val_digit_char: "d < 10 \<Longrightarrow> digit_val (digit_char d) = Some d"
  using digit_char_cases [of d] by (auto simp: digit_val_def digit_char_def)

lemma of_char_digit_char: "d < 10 \<Longrightarrow> of_char (digit_char d) = 48 + d"
  using digit_char_cases [of d] by (auto simp: digit_char_def)

lemma digit_char_less: "d < 10 \<Longrightarrow> e < 10 \<Longrightarrow> digit_char d < digit_char e \<longleftrightarrow> d < e"
  by (simp add: less_char_def of_char_digit_char)

lemma digit_char_eq: "d < 10 \<Longrightarrow> e < 10 \<Longrightarrow> digit_char d = digit_char e \<longleftrightarrow> d = e"
  by (metis digit_val_digit_char option.inject)

lemma is_digit_digit_char: "is_digit (digit_char d)"
  using digit_val_digit_char [of "d mod 10"] by (simp add: is_digit_def digit_char_def)

lemma dec_digits: "list_all is_digit (dec n)"
  by (induction n rule: dec.induct) (subst dec.simps, simp add: is_digit_digit_char)

lemma dec_nonempty: "dec n \<noteq> []"
  by (subst dec.simps) simp

lemma py_digits_val: "list_all is_digit s \<Longrightarrow> py_digits acc s = Some (digits_val acc s)"
proof (induction acc s rule: py_digits.induct)
  case (1 acc)
  then show ?case by (simp add: digits_val_def)
next
  case (2 acc c)
  then show ?case by (auto simp: digits_val_def is_digit_def)
next
  case (3 acc c d ds)
  then have "c \<noteq> CHR ''_''" by (auto simp: is_digit_def digit_val_def)
  with 3 show ?case by (auto simp: digits_val_def is_digit_def)
qed

lemma py_nat_val: "list_all is_digit s \<Longrightarrow> s \<noteq> [] \<Longrightarrow> py_nat s = Some (digits_val 0 s)"
  by (cases s) (auto simp: py_nat_def is_digit_def py_digits_val digits_val_def)

lemma digits_val_dec: "digits_val 0 (dec n) = n"
proof (induction n rule: dec.induct)
  case (1 n)
  show ?case
  proof (cases "n < 10")
    case True
    then show ?thesis
      by (subst dec.simps) (simp add: digits_val_def digit_val_digit_char)
  next
    case False
    with 1 have "digits_val 0 (dec (n div 10)) = n div 10" by simp
    with False show ?thesis
      by (subst dec.simps) (simp add: digits_val_def digit_val_digit_char)
  qed
qed

lemma py_nat_dec: "py_nat (dec n) = Some n"
  by (simp add: py_nat_val dec_digits dec_nonempty digits_val_dec)

lemma digit_not_space: "is_digit c \<Longrightarrow> \<not> is_space c"
  by (auto simp: is_digit_def digit_val_def is_space_def split: if_splits)

lemma dropWhile_hd: "xs \<noteq> [] \<Longrightarrow> \<not> P (hd xs) \<Longrightarrow> dropWhile P xs = xs"
  by (cases xs) auto

lemma strip_id: "s \<noteq> [] \<Longrightarrow> \<not> is_space (hd s) \<Longrightarrow> \<not> is_space (last s) \<Longrightarrow> strip s = s"
  by (simp add: strip_def dropWhile_hd hd_rev)

lemma dec_hd_last: "is_digit (hd (dec n)) \<and> is_digit (last (dec n))"
  using dec_digits [of n] dec_nonempty [of n]
  by (cases "dec n") (auto simp: list_all_iff)

lemma py_int_dec: "py_int (dec n) = Inr (int n)"
proof -
  have s: "strip (dec n) = dec n"
    using dec_hd_last [of n] by (simp add: strip_id dec_nonempty digit_not_space)
  obtain c cs where d: "dec n = c # cs" using dec_nonempty [of n] by (cases "dec n") auto
  have "is_digit c" using dec_hd_last [of n] d by simp
  then have "c \<noteq> CHR ''-''" "c \<noteq> CHR ''+''" by (auto simp: is_digit_def digit_val_def)
  then show ?thesis using py_nat_dec [of n] s by (simp add: py_int_def d)
qed

lemma digits_val_zero: "digits_val 0 (CHR ''0'' # s) = digits_val 0 s"
  by (simp add: digits_val_def digit_val_def)

lemma py_int_zero_dec: "py_int (CHR ''0'' # dec n) = Inr (int n)"
proof -
  have dg: "list_all is_digit (CHR ''0'' # dec n)"
    using dec_digits [of n] by (simp add: is_digit_def digit_val_def)
  have "\<not> is_space (last (CHR ''0'' # dec n))"
    using dec_hd_last [of n] by (simp add: dec_nonempty digit_not_space)
  moreover have "\<not> is_space CHR ''0''" by (simp add: is_space_def)
  ultimately have s: "strip (CHR ''0'' # dec n) = CHR ''0'' # dec n"
    by (simp add: strip_id)
  have "py_nat (CHR ''0'' # dec n) = Some n"
    using py_nat_val [OF dg] by (simp add: digits_val_zero digits_val_dec)
  then show ?thesis by (simp add: py_int_def s)
qed

lemma py_int_minus_dec: "n \<noteq> 0 \<Longrightarrow> py_int (CHR ''-'' # dec n) = Inr (- int n)"
proof -
  have "\<not> is_space (last (CHR ''-'' # dec n))"
    using dec_hd_last [of n] by (simp add: dec_nonempty digit_not_space)
  moreover have "\<not> is_space CHR ''-''" by (simp add: is_space_def)
  ultimately have s: "strip (CHR ''-'' # dec n) = CHR ''-'' # dec n"
    by (simp add: strip_id)
  show ?thesis by (simp add: py_int_def s py_nat_dec)
qed

lemma py_int_fmt02d: "py_int (fmt02d i) = Inr i"
  by (cases "i < 0") (simp_all add: fmt02d_def Let_def py_int_minus_dec py_int_zero_dec py_int_dec)

lemma is_digit_not_sep: "is_digit c \<Longrightarrow> c \<noteq> CHR ''.'' \<and> c \<noteq> CHR ''_''"
  by (auto simp: is_digit_def digit_val_def)

lemma fmt02d_chars: "c \<in> set (fmt02d i) \<Longrightarrow> is_digit c \<or> c = CHR ''-''"
proof -
  have z: "is_digit CHR ''0''" by (simp add: is_digit_def digit_val_def)
  assume "c \<in> set (fmt02d i)"
  then show ?thesis
    using dec_digits [of "nat i"] dec_digits [of "nat (- i)"] z
    by (cases "i < 0"; cases "length (dec (nat i)) < 2")
       (auto simp: fmt02d_def Let_def list_all_iff)
qed

lemma py_split_no_sep: "c \<notin> set s \<Longrightarrow> py_split c (s @ c # t) = s # py_split c t"
  by (induction s) auto

lemma py_split_none: "c \<notin> set s \<Longrightarrow> py_split c s = [s]"
  by (induction s) auto

lemma py_split_nonempty: "py_split c s \<noteq> []"
  by (induction s) (auto split: list.splits)

lemma py_split_length: "length (py_split c s) = Suc (length (filter (\<lambda>x. x = c) s))"
  by (induction s) (auto split: list.splits)

lemma py_split_last: "c \<notin> set t \<Longrightarrow> last (py_split c (s @ c # t)) = t"
proof (induction s)
  case Nil
  then show ?case by (simp add: py_split_none)
next
  case (Cons a s)
  have len: "2 \<le> length (py_split c (s @ c # t))"
    by (simp add: py_split_length)
  then obtain w v ws where sp: "py_split c (s @ c # t) = w # v # ws"
    by (cases "py_split c (s @ c # t)"; cases "tl (py_split c (s @ c # t))") auto
  with Cons show ?case by auto
qed

lemma fmt02d_no_dot: "CHR ''.'' \<notin> set (fmt02d i)"
  using fmt02d_chars [of "CHR ''.''" i] is_digit_not_sep [of "CHR ''.''"] by auto

lemma fmt02d_no_underscore: "CHR ''_'' \<notin> set (fmt02d i)"
  using fmt02d_chars [of "CHR ''_''" i] is_digit_not_sep [of "CHR ''_''"] by auto

lemma epoch_file_index:
  "(case py_first (py_split CHR ''.'' (fmt02d i @ ''.pth'')) of Inl e \<Rightarrow> Inl e | Inr s \<Rightarrow> py_int s) = Inr i"
  using py_split_no_sep [OF fmt02d_no_dot, of i "''pth''"]
  by (simp add: py_first_def py_int_fmt02d)

lemma get_run_index_run_dir_name:
  "get_run_index_from_path (root @ [run_dir_name i]) = Inr i"
proof -
  have "py_split CHR ''_'' (run_dir_name i) \<noteq> []" by (rule py_split_nonempty)
  moreover have "last (py_split CHR ''_'' (run_dir_name i)) = fmt02d i"
    using py_split_last [OF fmt02d_no_underscore, of "''run''" i] by (simp add: run_dir_name_def)
  ultimately show ?thesis
    by (auto simp: get_run_index_from_path_def basename_def py_last_def py_int_fmt02d split: list.splits)
qed

section \<open>Sorted listings and the last epoch of a directory\<close>

lemma fmt02d_two_digits: "k < 100 \<Longrightarrow> fmt02d (int k) = [digit_char (k div 10), digit_char (k mod 10)]"
proof (cases "k < 10")
  case True
  then have "dec k = [digit_char k]" by (subst dec.simps) simp
  moreover have "digit_char 0 = CHR ''0''" by (simp add: digit_char_def)
  ultimately show ?thesis using True by (simp add: fmt02d_def)
next
  case False
  assume "k < 100"
  then have "k div 10 < 10" by simp
  then have "dec (k div 10) = [digit_char (k div 10)]" by (subst dec.simps) simp
  then have "dec k = [digit_char (k div 10), digit_char (k mod 10)]"
    using False by (subst dec.simps) simp
  then show ?thesis by (simp add: fmt02d_def)
qed

lemma epoch_file_mono:
  assumes "i \<le> j" "j < 100"
  shows "epoch_file (int i) \<le> epoch_file (int j)"
proof (cases "i = j")
  case True
  then show ?thesis by simp
next
  case False
  with assms have lt: "i < j" by simp
  have d: "i div 10 < 10" "j div 10 < 10" "i mod 10 < 10" "j mod 10 < 10"
    using assms by simp_all
  have "i div 10 < j div 10 \<or> i div 10 = j div 10 \<and> i mod 10 < j mod 10"
    using lt by (metis div_le_mono less_imp_le_nat linorder_neqE_nat mod_div_decomp nat_add_left_cancel_less not_less order_le_less)
  then have "epoch_file (int i) < epoch_file (int j)"
    using assms d
    by (auto simp: epoch_file_def fmt02d_two_digits digit_char_less digit_char_eq)
  then show ?thesis by simp
qed

lemma sorted_le_last: "sorted ys \<Longrightarrow> y \<in> set ys \<Longrightarrow> y \<le> last ys"
  for ys :: "'a::linorder list"
  by (induction ys) auto

lemma sort_Nil_iff: "sort xs = [] \<longleftrightarrow> xs = []"
  for xs :: "'a::linorder list"
  by (metis length_0_conv length_sort)

lemma sort_last_Max: "xs \<noteq> [] \<Longrightarrow> last (sort xs) = Max (set xs)"
  for xs :: "'a::linorder list"
proof -
  assume ne: "xs \<noteq> []"
  have "Max (set (sort xs)) = last (sort xs)"
  proof (rule Max_eqI)
    show "finite (set (sort xs))" by simp
    show "\<And>y. y \<in> set (sort xs) \<Longrightarrow> y \<le> last (sort xs)"
      using sorted_le_last [of "sort xs"] by simp
    show "last (sort xs) \<in> set (sort xs)"
      using ne by (metis last_in_set set_empty set_sort)
  qed
  then show ?thesis by simp
qed

lemma Max_epoch_files:
  assumes "js \<noteq> []" "set js \<subseteq> {..<100}"
  shows "Max (set (epoch_files js)) = epoch_file (int (Max (set js)))"
proof (rule Max_eqI)
  show "finite (set (epoch_files js))" by simp
  have "Max (set js) \<in> set js" using assms(1) by (intro Max_in) auto
  then show "epoch_file (int (Max (set js))) \<in> set (epoch_files js)"
    by (auto simp: epoch_files_def)
  fix y assume "y \<in> set (epoch_files js)"
  then obtain j where j: "j \<in> set js" "y = epoch_file (int j)" by (auto simp: epoch_files_def)
  then have "j \<le> Max (set js)" by simp
  moreover have "Max (set js) < 100" using assms \<open>Max (set js) \<in> set js\<close> by auto
  ultimately show "y \<le> epoch_file (int (Max (set js)))"
    using j by (simp add: epoch_file_mono)
qed

lemma epoch_file_index':
  "(case py_first (py_split CHR ''.'' (epoch_file i)) of Inl e \<Rightarrow> Inl e | Inr s \<Rightarrow> py_int s) = Inr i"
  using epoch_file_index [of i] by (simp add: epoch_file_def)

lemma listdir_isdir: "listdir fs d = Inr names \<Longrightarrow> isdir fs d"
  by (auto simp: listdir_def isdir_def split: option.splits entry.splits)

lemma dir_get_last_epoch_index_eq:
  assumes "listdir fs d = Inr names"
  shows "dir_get_last_epoch_index fs d =
           (if names = [] then Inr (- 1)
            else (case py_first (py_split CHR ''.'' (Max (set names))) of
                    Inl e \<Rightarrow> Inl e | Inr s \<Rightarrow> py_int s))"
proof (cases "names = []")
  case True
  then show ?thesis using assms listdir_isdir [OF assms] by (simp add: dir_get_last_epoch_index_def)
next
  case False
  then obtain c cs where s: "sort names = c # cs" by (cases "sort names") (auto simp: sort_Nil_iff)
  have "last (c # cs) = Max (set names)" using sort_last_Max [OF False] s by simp
  then show ?thesis
    using False assms listdir_isdir [OF assms] s
    by (simp add: dir_get_last_epoch_index_def del: last.simps)
qed

lemma holds_epochs_last_index:
  assumes "holds_epochs fs d js" "set js \<subseteq> {..<100}"
  shows "dir_get_last_epoch_index fs d = Inr (highest_index js)"
proof -
  from assms(1) obtain names where l: "listdir fs d = Inr names"
    and st: "set names = set (epoch_files js)"
    by (auto simp: holds_epochs_def split: sum.splits)
  show ?thesis
  proof (cases "js = []")
    case True
    with st have "names = []" by (simp add: epoch_files_def)
    then show ?thesis using True by (simp add: dir_get_last_epoch_index_eq [OF l] highest_index_def)
  next
    case False
    then have "names \<noteq> []" using st by (auto simp: epoch_files_def)
    moreover have "Max (set names) = epoch_file (int (Max (set js)))"
      using False assms(2) st Max_epoch_files [of js] by simp
    ultimately show ?thesis
      using False by (simp add: dir_get_last_epoch_index_eq [OF l] epoch_file_index' highest_index_def)
  qed
qed

section \<open>The scan of the experiment directory\<close>

lemma get_number_of_runs_listdir:
  "listdir fs (experiment_dir_path m) = Inr names \<Longrightarrow> get_number_of_runs m fs = Inr (int (length names))"
  by (simp add: get_number_of_runs_def)

lemma get_last_run_dir_path_Max:
  assumes "listdir fs (experiment_dir_path m) = Inr names" "names \<noteq> []"
  shows "get_last_run_dir_path m fs = Inr (experiment_dir_path m @ [Max (set names)])"
proof -
  obtain c cs where s: "sort names = c # cs"
    using assms(2) by (cases "sort names") (auto simp: sort_Nil_iff)
  have "last (c # cs) = Max (set names)" using sort_last_Max [OF assms(2)] s by simp
  then show ?thesis
    using assms(1) s by (simp add: get_last_run_dir_path_def py_last_def del: last.simps)
qed

lemma scan_empty_root:
  "listdir fs (experiment_dir_path m) = Inr [] \<Longrightarrow> scan_experiment_dir m fs = make_run_dir m 0 fs"
  by (simp add: scan_experiment_dir_def get_number_of_runs_def)

lemma get_last_epoch_index_manager:
  "get_last_epoch_index m fs p = get_last_epoch_index m' fs p"
  by (simp add: get_last_epoch_index_def)

lemma scan_last_run:
  assumes "listdir fs (experiment_dir_path m) = Inr names" "names \<noteq> []"
    and "run = experiment_dir_path m @ [Max (set names)]"
  shows "scan_experiment_dir m fs =
           (case get_last_epoch_index m fs run of
              Inl e \<Rightarrow> (Inl e, m, fs)
            | Inr l \<Rightarrow>
                if l = epochs_per_run m - 1 then
                  (case get_run_index_from_path run of
                     Inl e \<Rightarrow> (Inl e, m, fs)
                   | Inr i \<Rightarrow> make_run_dir m (i + 1) fs)
                else (Inr (), m\<lparr>current_run_dir_path := Some run, start_epoch := Some (l + 1)\<rparr>, fs))"
proof -
  have n: "get_number_of_runs m fs = Inr (int (length names))"
    using assms(1) by (rule get_number_of_runs_listdir)
  have l: "get_last_run_dir_path m fs = Inr run"
    using get_last_run_dir_path_Max [OF assms(1,2)] assms(3) by simp
  have g: "get_last_epoch_index (m\<lparr>current_run_dir_path := Some run\<rparr>) fs run = get_last_epoch_index m fs run"
    by (rule get_last_epoch_index_manager)
  show ?thesis
    using assms(2)
    by (simp add: scan_experiment_dir_def n l is_run_completed_def is_checkpoint_dir_full_def g
        split: sum.splits)
qed

lemma get_last_epoch_index_holds:
  assumes "holds_epochs fs (run @ [''model'']) a" "holds_epochs fs (run @ [''optimizer'']) b"
    "holds_epochs fs (run @ [''scheduler'']) c"
    "set a \<subseteq> {..<100}" "set b \<subseteq> {..<100}" "set c \<subseteq> {..<100}"
  shows "get_last_epoch_index m fs run = Inr (min (highest_index a) (min (highest_index b) (highest_index c)))"
  using assms by (simp add: get_last_epoch_index_def holds_epochs_last_index)

section \<open>Directories and files\<close>

lemma lookup_update:
  "p \<noteq> [] \<Longrightarrow> lookup (AList.update p e fs) q = (if q = p then Some e else lookup fs q)"
  by (simp add: lookup_def update_conv')

lemma lookup_None_nonempty: "lookup fs p = None \<Longrightarrow> p \<noteq> []"
  by (auto simp: lookup_def)

lemma lookup_keys: "q \<noteq> [] \<Longrightarrow> lookup fs q = None \<longleftrightarrow> q \<notin> fst ` set fs"
  by (simp add: lookup_def map_of_eq_None_iff)

lemma wf_fs_parent: "wf_fs fs \<Longrightarrow> lookup fs q \<noteq> None \<Longrightarrow> isdir fs (butlast q)"
proof (cases "q = []")
  case True
  then show ?thesis by (simp add: isdir_def lookup_def)
next
  case False
  assume "wf_fs fs" "lookup fs q \<noteq> None"
  then have "q \<in> fst ` set fs" using False by (simp add: lookup_keys)
  with \<open>wf_fs fs\<close> show ?thesis by (auto simp: wf_fs_def list_all_iff)
qed

lemma listdir_names:
  assumes "listdir fs d = Inr names"
  shows "set names = {n. lookup fs (d @ [n]) \<noteq> None}" and "distinct names"
proof -
  have n: "names = remdups (map last (filter (\<lambda>q. q \<noteq> [] \<and> butlast q = d) (map fst fs)))"
    using assms by (auto simp: listdir_def split: option.splits entry.splits)
  show "distinct names" by (simp add: n)
  show "set names = {n. lookup fs (d @ [n]) \<noteq> None}"
  proof (intro set_eqI iffI)
    fix x assume "x \<in> set names"
    then obtain q where q: "q \<in> fst ` set fs" "q \<noteq> []" "butlast q = d" "last q = x"
      by (auto simp: n)
    then have "d @ [x] = q" using append_butlast_last_id [of q] by simp
    moreover have "lookup fs q \<noteq> None" using q by (simp add: lookup_keys)
    ultimately show "x \<in> {n. lookup fs (d @ [n]) \<noteq> None}" by blast
  next
    fix x assume "x \<in> {n. lookup fs (d @ [n]) \<noteq> None}"
    then have "lookup fs (d @ [x]) \<noteq> None" by blast
    then have "d @ [x] \<in> fst ` set fs" by (simp add: lookup_keys)
    then have "last (d @ [x]) \<in> set names" unfolding n by (intro image_eqI [where x = "d @ [x]"] | simp)+
    then show "x \<in> set names" by simp
  qed
qed

lemma listdir_dir: "isdir fs d \<Longrightarrow> \<exists>names. listdir fs d = Inr names"
  by (simp add: listdir_def isdir_def)

lemma listdir_empty_iff:
  "listdir fs d = Inr [] \<longleftrightarrow> isdir fs d \<and> (\<forall>n. lookup fs (d @ [n]) = None)"
proof
  assume l: "listdir fs d = Inr []"
  then show "isdir fs d \<and> (\<forall>n. lookup fs (d @ [n]) = None)"
    using listdir_names(1) [OF l] listdir_isdir [OF l] by auto
next
  assume a: "isdir fs d \<and> (\<forall>n. lookup fs (d @ [n]) = None)"
  then obtain names where l: "listdir fs d = Inr names" using listdir_dir by blast
  then have "set names = {}" using listdir_names(1) [OF l] a by simp
  then show "listdir fs d = Inr []" using l by simp
qed

lemma makedirs_in_dir:
  assumes "isdir fs (butlast p)"
  shows "makedirs False p fs =
           (if lookup fs p \<noteq> None then (Inl FileExistsError, fs) else (Inr (), AList.update p Dir fs))"
  using assms by (subst makedirs.simps) (auto simp: isdir_def mkdir_def)

lemma makedirs_exist_ok:
  assumes "isdir fs p" "isdir fs (butlast p)"
  shows "makedirs True p fs = (Inr (), fs)"
  using assms by (subst makedirs.simps) (auto simp: isdir_def mkdir_def)

lemma make_checkpoint_dirs_fresh:
  assumes "isdir fs run" "distinct names" "\<forall>n \<in> set names. lookup fs (run @ [n]) = None"
  shows "\<exists>fs'. make_checkpoint_dirs run names fs = (Inr (), fs') \<and>
           (\<forall>q. lookup fs' q = (if q \<in> (\<lambda>n. run @ [n]) ` set names then Some Dir else lookup fs q))"
  using assms
proof (induction names arbitrary: fs)
  case Nil
  then show ?case by simp
next
  case (Cons n names)
  let ?fs1 = "AList.update (run @ [n]) Dir fs"
  have m: "makedirs False (run @ [n]) fs = (Inr (), ?fs1)"
    using Cons.prems by (simp add: makedirs_in_dir)
  have l1: "\<And>q. lookup ?fs1 q = (if q = run @ [n] then Some Dir else lookup fs q)"
    by (simp add: lookup_update)
  have "isdir ?fs1 run" using Cons.prems(1) by (simp add: isdir_def l1)
  moreover have "distinct names" using Cons.prems(2) by simp
  moreover have "\<forall>k \<in> set names. lookup ?fs1 (run @ [k]) = None"
    using Cons.prems(2,3) by (auto simp: l1)
  ultimately obtain fs' where r: "make_checkpoint_dirs run names ?fs1 = (Inr (), fs')"
    and l: "\<forall>q. lookup fs' q = (if q \<in> (\<lambda>n. run @ [n]) ` set names then Some Dir else lookup ?fs1 q)"
    using Cons.IH [of ?fs1] by blast
  have "make_checkpoint_dirs run (n # names) fs = (Inr (), fs')" using m r by simp
  moreover have "\<forall>q. lookup fs' q = (if q \<in> (\<lambda>n. run @ [n]) ` set (n # names) then Some Dir else lookup fs q)"
    using l by (auto simp: l1)
  ultimately show ?case by blast
qed

lemma make_run_dir_fresh:
  assumes "wf_fs fs" "isdir fs (experiment_dir_path m)"
    "lookup fs (experiment_dir_path m @ [run_dir_name i]) = None"
    "distinct (map fst (modules_to_track m))"
    "run = experiment_dir_path m @ [run_dir_name i]"
  shows "\<exists>fs'. make_run_dir m i fs =
              (Inr (), m\<lparr>start_epoch := Some 0, current_run_dir_path := Some run\<rparr>, fs') \<and>
           (\<forall>q. lookup fs' q =
              (if q = run \<or> q \<in> (\<lambda>n. run @ [n]) ` fst ` set (modules_to_track m) then Some Dir
               else lookup fs q))"
proof -
  let ?fs1 = "AList.update run Dir fs"
  have m1: "makedirs False run fs = (Inr (), ?fs1)"
    using assms by (simp add: makedirs_in_dir)
  have l1: "\<And>q. lookup ?fs1 q = (if q = run then Some Dir else lookup fs q)"
    using assms(5) by (simp add: lookup_update)
  have none: "\<forall>n \<in> set (map fst (modules_to_track m)). lookup ?fs1 (run @ [n]) = None"
  proof
    fix n assume "n \<in> set (map fst (modules_to_track m))"
    have "lookup fs (run @ [n]) = None"
    proof (rule ccontr)
      assume "lookup fs (run @ [n]) \<noteq> None"
      then have "isdir fs (butlast (run @ [n]))" using assms(1) by (rule wf_fs_parent [rotated])
      then show False using assms(3,5) by (simp add: isdir_def butlast_append)
    qed
    then show "lookup ?fs1 (run @ [n]) = None" by (simp add: l1)
  qed
  have "isdir ?fs1 run" by (simp add: isdir_def l1)
  then obtain fs' where r: "make_checkpoint_dirs run (map fst (modules_to_track m)) ?fs1 = (Inr (), fs')"
    and l: "\<forall>q. lookup fs' q = (if q \<in> (\<lambda>n. run @ [n]) ` set (map fst (modules_to_track m)) then Some Dir else lookup ?fs1 q)"
    using make_checkpoint_dirs_fresh [OF _ assms(4) none] by blast
  have "make_run_dir m i fs = (Inr (), m\<lparr>start_epoch := Some 0, current_run_dir_path := Some run\<rparr>, fs')"
    using m1 r assms(5) by (simp add: make_run_dir_def)
  moreover have "\<forall>q. lookup fs' q =
              (if q = run \<or> q \<in> (\<lambda>n. run @ [n]) ` fst ` set (modules_to_track m) then Some Dir
               else lookup fs q)"
    using l by (auto simp: l1)
  ultimately show ?thesis by blast
qed

section \<open>The public accessors\<close>

text \<open>
  C9 (the accessor half that fails): \<^verbatim>\<open>get_current_run_dir_path\<close> never returns the path
  of the current run directory. For every manager, whatever its cursor, the call raises
  \<^verbatim>\<open>NameError\<close>, while \<^verbatim>\<open>get_start_epoch\<close> does return the cursor's epoch.
\<close>

theorem get_current_run_dir_path_raises:
  "get_current_run_dir_path m = Inl NameError \<and> get_start_epoch m = start_epoch m"
  by (simp add: get_current_run_dir_path_def get_start_epoch_def)

section \<open>Resuming an incomplete run\<close>

text \<open>
  C1, as the code has it. When the root is not empty, its greatest entry is the last run.
  The scan reads the three directories \<^verbatim>\<open>model\<close>, \<^verbatim>\<open>optimizer\<close> and \<^verbatim>\<open>scheduler\<close> of that
  run, whatever modules the manager tracks. When each of them holds only checkpoint files
  of epochs below 100 and the run is not complete, the scan keeps that run as the current
  one, changes nothing on disk, and sets the resume epoch to one plus the minimum over the
  three directories of the highest checkpoint index (\<open>- 1\<close> for an empty directory). The
  witness is the run 0 with epochs 0 to 2 of \<^verbatim>\<open>model\<close> and epochs 0 and 1 of \<^verbatim>\<open>optimizer\<close>
  and of \<^verbatim>\<open>scheduler\<close>, budget 3: resume epoch 2, run index 0, from the scan and from the
  constructor.
\<close>

theorem scan_resumes_incomplete_run:
  assumes "listdir fs (experiment_dir_path m) = Inr names" "names \<noteq> []"
    and "run = experiment_dir_path m @ [Max (set names)]"
    and "holds_epochs fs (run @ [''model'']) a" "holds_epochs fs (run @ [''optimizer'']) b"
      "holds_epochs fs (run @ [''scheduler'']) c"
    and "set a \<subseteq> {..<100}" "set b \<subseteq> {..<100}" "set c \<subseteq> {..<100}"
    and "min (highest_index a) (min (highest_index b) (highest_index c)) \<noteq> epochs_per_run m - 1"
  shows "scan_experiment_dir m fs =
           (Inr (),
            m\<lparr>current_run_dir_path := Some run,
              start_epoch := Some (min (highest_index a) (min (highest_index b) (highest_index c)) + 1)\<rparr>,
            fs)"
  using assms(10)
  by (simp add: scan_last_run [OF assms(1-3)] get_last_epoch_index_holds [OF assms(4-9)])

theorem scan_resumes_incomplete_run_witness:
  "scan_experiment_dir manager_three fs_three_components =
     (Inr (),
      manager_three\<lparr>current_run_dir_path := Some [''exp'', ''run_00''], start_epoch := Some 2\<rparr>,
      fs_three_components)
   \<and> get_run_index_from_path [''exp'', ''run_00''] = Inr 0
   \<and> init (modules_to_track manager_three) [''exp''] 3 True fs_three_components =
     (Inr (manager_three\<lparr>current_run_dir_path := Some [''exp'', ''run_00''], start_epoch := Some 2\<rparr>),
      fs_three_components)"
proof -
  have l: "listdir fs_three_components (experiment_dir_path manager_three) = Inr [''run_00'']"
    by code_simp
  have r: "[''exp'', ''run_00''] = experiment_dir_path manager_three @ [Max (set [''run_00''])]"
    by (simp add: manager_three_def)
  have a: "holds_epochs fs_three_components ([''exp'', ''run_00''] @ [''model'']) [0, 1, 2]"
    by code_simp
  have b: "holds_epochs fs_three_components ([''exp'', ''run_00''] @ [''optimizer'']) [0, 1]"
    by code_simp
  have c: "holds_epochs fs_three_components ([''exp'', ''run_00''] @ [''scheduler'']) [0, 1]"
    by code_simp
  have h: "highest_index [0, Suc 0, 2] = 2" "highest_index [0, Suc 0] = 1"
    by (simp_all add: highest_index_def)
  have e: "epochs_per_run manager_three = 3" by (simp add: manager_three_def)
  have i: "get_run_index_from_path [''exp'', ''run_00''] = Inr 0" by code_simp
  have n: "init (modules_to_track manager_three) [''exp''] 3 True fs_three_components =
     (Inr (manager_three\<lparr>current_run_dir_path := Some [''exp'', ''run_00''], start_epoch := Some 2\<rparr>),
      fs_three_components)"
    by code_simp
  show ?thesis
    using scan_resumes_incomplete_run [OF l _ r a b c] i n by (simp add: h e)
qed

text \<open>
  The example of the claim itself, with the two tracked modules \<^verbatim>\<open>model\<close> and
  \<^verbatim>\<open>optimizer\<close> and no \<^verbatim>\<open>scheduler\<close> directory: the constructor raises
  \<^verbatim>\<open>NotADirectoryError\<close> and reports no resume epoch. And where the three directories
  hold the epochs 99 and 100, the listing sorted as strings ends with \<^verbatim>\<open>99.pth\<close>: the
  resume epoch is 100, not 101.
\<close>

theorem init_two_components_raises:
  "init (modules_to_track manager_two) [''exp''] 3 True fs_two_components =
     (Inl NotADirectoryError, fs_two_components)
   \<and> holds_epochs fs_two_components [''exp'', ''run_00'', ''model''] [0, 1, 2]
   \<and> holds_epochs fs_two_components [''exp'', ''run_00'', ''optimizer''] [0, 1]
   \<and> map fst (modules_to_track manager_two) = [''model'', ''optimizer'']
   \<and> scan_experiment_dir (manager_three\<lparr>epochs_per_run := 200\<rparr>) fs_sparse =
     (Inr (),
      manager_three\<lparr>epochs_per_run := 200, current_run_dir_path := Some [''exp'', ''run_00''],
        start_epoch := Some 100\<rparr>,
      fs_sparse)
   \<and> holds_epochs fs_sparse [''exp'', ''run_00'', ''model''] [99, 100]
   \<and> holds_epochs fs_sparse [''exp'', ''run_00'', ''optimizer''] [99, 100]
   \<and> holds_epochs fs_sparse [''exp'', ''run_00'', ''scheduler''] [99, 100]"
  by code_simp

section \<open>When a run is complete\<close>

lemma epoch_file_inj: "epoch_file i = epoch_file j \<longleftrightarrow> i = j"
proof
  assume "epoch_file i = epoch_file j"
  then have "(Inr i :: error + int) = Inr j"
    using epoch_file_index' [of i] epoch_file_index' [of j] by (simp only:)
  then show "i = j" by simp
qed simp

lemma listdir_mem:
  "listdir fs d = Inr names \<Longrightarrow> n \<in> set names \<longleftrightarrow> lookup fs (d @ [n]) \<noteq> None"
  using listdir_names(1) [of fs d names] by auto

lemma highest_index_le:
  assumes "\<forall>j \<in> set js. int j < B" "1 \<le> B"
  shows "highest_index js \<le> B - 1"
proof (cases "js = []")
  case True
  then show ?thesis using assms(2) by (simp add: highest_index_def)
next
  case False
  then have "Max (set js) \<in> set js" by (intro Max_in) auto
  then show ?thesis using assms(1) False by (auto simp: highest_index_def)
qed

lemma highest_index_final:
  assumes "\<forall>j \<in> set js. int j < B" "1 \<le> B"
  shows "highest_index js = B - 1 \<longleftrightarrow> (\<exists>j \<in> set js. int j = B - 1)"
proof (cases "js = []")
  case True
  then show ?thesis using assms(2) by (simp add: highest_index_def)
next
  case False
  then have mx: "Max (set js) \<in> set js" by (intro Max_in) auto
  show ?thesis
  proof
    assume "highest_index js = B - 1"
    then show "\<exists>j \<in> set js. int j = B - 1" using False mx by (auto simp: highest_index_def)
  next
    assume "\<exists>j \<in> set js. int j = B - 1"
    then obtain j where j: "j \<in> set js" "int j = B - 1" by blast
    then have "j \<le> Max (set js)" by simp
    moreover have "int (Max (set js)) < B" using assms(1) mx by blast
    ultimately have "int (Max (set js)) = B - 1" using j(2) by linarith
    then show "highest_index js = B - 1" using False by (simp add: highest_index_def)
  qed
qed

lemma holds_epochs_final:
  assumes "holds_epochs fs d js" "\<forall>j \<in> set js. int j < B" "1 \<le> B"
  shows "lookup fs (d @ [epoch_file (B - 1)]) \<noteq> None \<longleftrightarrow> highest_index js = B - 1"
proof -
  from assms(1) obtain names where l: "listdir fs d = Inr names"
    and st: "set names = set (epoch_files js)"
    by (auto simp: holds_epochs_def split: sum.splits)
  have "lookup fs (d @ [epoch_file (B - 1)]) \<noteq> None \<longleftrightarrow> epoch_file (B - 1) \<in> set (epoch_files js)"
    using listdir_mem [OF l, of "epoch_file (B - 1)"] st by simp
  also have "\<dots> \<longleftrightarrow> (\<exists>j \<in> set js. epoch_file (int j) = epoch_file (B - 1))"
    unfolding epoch_files_def set_map image_iff by (rule bex_cong [OF refl]) (rule eq_commute)
  also have "\<dots> \<longleftrightarrow> (\<exists>j \<in> set js. int j = B - 1)"
    by (simp only: epoch_file_inj)
  finally show ?thesis using highest_index_final [OF assms(2,3)] by simp
qed

text \<open>
  C4, as the code has it. \<^verbatim>\<open>is_run_completed\<close> reads the three directories \<^verbatim>\<open>model\<close>,
  \<^verbatim>\<open>optimizer\<close> and \<^verbatim>\<open>scheduler\<close> of the run, whatever modules the manager tracks. For a
  budget \<open>B\<close> between 1 and 100 and a run whose three directories hold only checkpoint
  files of epochs below \<open>B\<close>, the run is reported complete if and only if each of the
  three directories contains the checkpoint file of epoch \<open>B - 1\<close>: one missing final file
  makes the run incomplete whatever the other two hold.
\<close>

theorem run_completed_iff_final_checkpoints:
  assumes "holds_epochs fs (run @ [''model'']) a" "holds_epochs fs (run @ [''optimizer'']) b"
      "holds_epochs fs (run @ [''scheduler'']) c"
    and "\<forall>j \<in> set a \<union> set b \<union> set c. int j < epochs_per_run m"
    and "1 \<le> epochs_per_run m" "epochs_per_run m \<le> 100"
  shows "is_run_completed m fs run =
           Inr (\<forall>d \<in> set [''model'', ''optimizer'', ''scheduler''].
                  lookup fs (run @ [d, epoch_file (epochs_per_run m - 1)]) \<noteq> None)"
proof -
  let ?B = "epochs_per_run m"
  have ba: "\<forall>j \<in> set a. int j < ?B" and bb: "\<forall>j \<in> set b. int j < ?B" and bc: "\<forall>j \<in> set c. int j < ?B"
    using assms(4) by auto
  have s: "set a \<subseteq> {..<100}" "set b \<subseteq> {..<100}" "set c \<subseteq> {..<100}"
    using ba bb bc assms(6) by fastforce+
  have g: "get_last_epoch_index m fs run = Inr (min (highest_index a) (min (highest_index b) (highest_index c)))"
    using assms(1-3) s by (rule get_last_epoch_index_holds)
  have le: "highest_index a \<le> ?B - 1" "highest_index b \<le> ?B - 1" "highest_index c \<le> ?B - 1"
    using highest_index_le ba bb bc assms(5) by blast+
  have f: "lookup fs (run @ [''model'', epoch_file (?B - 1)]) \<noteq> None \<longleftrightarrow> highest_index a = ?B - 1"
    "lookup fs (run @ [''optimizer'', epoch_file (?B - 1)]) \<noteq> None \<longleftrightarrow> highest_index b = ?B - 1"
    "lookup fs (run @ [''scheduler'', epoch_file (?B - 1)]) \<noteq> None \<longleftrightarrow> highest_index c = ?B - 1"
    using holds_epochs_final [OF assms(1) ba assms(5)] holds_epochs_final [OF assms(2) bb assms(5)]
      holds_epochs_final [OF assms(3) bc assms(5)] by simp_all
  have "min (highest_index a) (min (highest_index b) (highest_index c)) = ?B - 1 \<longleftrightarrow>
        highest_index a = ?B - 1 \<and> highest_index b = ?B - 1 \<and> highest_index c = ?B - 1"
    using le by linarith
  then show ?thesis
    using f by (simp add: is_run_completed_def is_checkpoint_dir_full_def g)
qed

theorem run_completed_iff_final_checkpoints_witness:
  "is_run_completed manager_three fs_three_components [''exp'', ''run_00''] = Inr False
   \<and> lookup fs_three_components [''exp'', ''run_00'', ''optimizer'', epoch_file 2] = None"
proof -
  have a: "holds_epochs fs_three_components ([''exp'', ''run_00''] @ [''model'']) [0, 1, 2]"
    by code_simp
  have b: "holds_epochs fs_three_components ([''exp'', ''run_00''] @ [''optimizer'']) [0, 1]"
    by code_simp
  have c: "holds_epochs fs_three_components ([''exp'', ''run_00''] @ [''scheduler'']) [0, 1]"
    by code_simp
  have e: "epochs_per_run manager_three = 3" by (simp add: manager_three_def)
  have j: "\<forall>j \<in> set [0, 1, 2] \<union> set [0, 1] \<union> set [0, 1]. int j < epochs_per_run manager_three"
    by (simp add: e)
  have o: "lookup fs_three_components [''exp'', ''run_00'', ''optimizer'', epoch_file 2] = None"
    by code_simp
  show ?thesis
    using run_completed_iff_final_checkpoints [OF a b c j] o by (simp add: e)
qed

text \<open>
  The claim as stated fails where the tracked modules are not the three fixed names: with
  \<^verbatim>\<open>model\<close> and \<^verbatim>\<open>optimizer\<close> tracked, budget 3, and the file of epoch 2 present for both,
  the run is not reported complete: the check raises \<^verbatim>\<open>NotADirectoryError\<close>. It also fails
  where a directory holds a file of an epoch beyond the budget (epochs 2 and 3, budget 3),
  and where the budget is above 100 (epochs 99 and 100, budget 101): the file of the last
  epoch is there for all three, and the run is reported incomplete.
\<close>

theorem run_completed_two_components_raises:
  "is_run_completed manager_two fs_two_complete [''exp'', ''run_00''] = Inl NotADirectoryError
   \<and> map fst (modules_to_track manager_two) = [''model'', ''optimizer'']
   \<and> epochs_per_run manager_two = 3
   \<and> lookup fs_two_complete [''exp'', ''run_00'', ''model'', epoch_file 2] = Some (File ''m2'')
   \<and> lookup fs_two_complete [''exp'', ''run_00'', ''optimizer'', epoch_file 2] = Some (File ''o2'')
   \<and> is_run_completed manager_three fs_beyond [''exp'', ''run_00''] = Inr False
   \<and> lookup fs_beyond [''exp'', ''run_00'', ''model'', epoch_file 2] = Some (File ''m2'')
   \<and> lookup fs_beyond [''exp'', ''run_00'', ''optimizer'', epoch_file 2] = Some (File ''o2'')
   \<and> lookup fs_beyond [''exp'', ''run_00'', ''scheduler'', epoch_file 2] = Some (File ''s2'')
   \<and> is_run_completed (manager_three\<lparr>epochs_per_run := 101\<rparr>) fs_sparse [''exp'', ''run_00''] = Inr False
   \<and> lookup fs_sparse [''exp'', ''run_00'', ''model'', epoch_file 100] = Some (File ''m100'')
   \<and> lookup fs_sparse [''exp'', ''run_00'', ''optimizer'', epoch_file 100] = Some (File ''o100'')
   \<and> lookup fs_sparse [''exp'', ''run_00'', ''scheduler'', epoch_file 100] = Some (File ''s100'')"
  by code_simp

section \<open>A missing checkpoint directory\<close>





lemma dir_get_last_epoch_index_missing:
  "\<not> isdir fs d \<Longrightarrow> dir_get_last_epoch_index fs d = Inl NotADirectoryError"
  by (simp add: dir_get_last_epoch_index_def)









section \<open>The three fixed directories\<close>

lemma dir_get_last_epoch_index_frame:
  assumes "dir_names fs d = dir_names fs' d'"
  shows "dir_get_last_epoch_index fs d = dir_get_last_epoch_index fs' d'"
proof (cases "listdir fs d")
  case (Inl e)
  then have "\<not> isdir fs d" using listdir_dir [of fs d] by auto
  moreover obtain e' where "listdir fs' d' = Inl e'"
    using assms Inl by (cases "listdir fs' d'") (auto simp: dir_names_def)
  then have "\<not> isdir fs' d'" using listdir_dir [of fs' d'] by auto
  ultimately show ?thesis by (simp add: dir_get_last_epoch_index_missing)
next
  case (Inr names)
  then obtain names' where l': "listdir fs' d' = Inr names'" and s: "set names = set names'"
    using assms by (cases "listdir fs' d'") (auto simp: dir_names_def)
  have "names = [] \<longleftrightarrow> names' = []" using s by (metis set_empty)
  then show ?thesis
    using s by (simp add: dir_get_last_epoch_index_eq [OF Inr] dir_get_last_epoch_index_eq [OF l'])
qed

lemma get_last_epoch_index_frame:
  assumes "\<forall>d \<in> set [''model'', ''optimizer'', ''scheduler'']. dir_names fs (p @ [d]) = dir_names fs' (p @ [d])"
  shows "get_last_epoch_index m fs p = get_last_epoch_index m' fs' p"
proof -
  have e: "dir_get_last_epoch_index fs (p @ [''model'']) = dir_get_last_epoch_index fs' (p @ [''model''])"
    "dir_get_last_epoch_index fs (p @ [''optimizer'']) = dir_get_last_epoch_index fs' (p @ [''optimizer''])"
    "dir_get_last_epoch_index fs (p @ [''scheduler'']) = dir_get_last_epoch_index fs' (p @ [''scheduler''])"
    using assms by (auto intro!: dir_get_last_epoch_index_frame)
  show ?thesis unfolding get_last_epoch_index_def e by (rule refl)
qed

lemma get_last_epoch_index_absent:
  assumes "\<exists>d \<in> set [''model'', ''optimizer'', ''scheduler'']. \<not> isdir fs (p @ [d])"
  shows "\<exists>e. get_last_epoch_index m fs p = Inl e"
  using assms
  by (cases "isdir fs (p @ [''model''])"; cases "isdir fs (p @ [''optimizer''])";
      cases "isdir fs (p @ [''scheduler''])")
     (auto simp: get_last_epoch_index_def dir_get_last_epoch_index_missing split: sum.splits)

text \<open>
  C8. The resume epoch and the completeness of a run are computed from the directories
  \<^verbatim>\<open>model\<close>, \<^verbatim>\<open>optimizer\<close> and \<^verbatim>\<open>scheduler\<close> of the run directory and from nothing else:
  two file systems that agree on the names in these three directories give the same
  result to any two managers, whatever modules they track (for completeness, with the same
  budget). If one of the three is absent both computations raise, tracked or not. So the
  scan of an existing incomplete run gives the resume epoch that the three directories
  give, and takes no account of the directory of a tracked module of another name.
\<close>

theorem fixed_directories_only:
  assumes "\<forall>d \<in> set [''model'', ''optimizer'', ''scheduler'']. dir_names fs (p @ [d]) = dir_names fs' (p @ [d])"
  shows "get_last_epoch_index m fs p = get_last_epoch_index m' fs' p
       \<and> (epochs_per_run m = epochs_per_run m' \<longrightarrow> is_run_completed m fs p = is_run_completed m' fs' p)
       \<and> ((\<exists>d \<in> set [''model'', ''optimizer'', ''scheduler'']. \<not> isdir fs (p @ [d])) \<longrightarrow>
            (\<exists>e. get_last_epoch_index m fs p = Inl e \<and> is_run_completed m fs p = Inl e))
       \<and> (\<forall>names. listdir fs (experiment_dir_path m) = Inr names \<and> names \<noteq> []
              \<and> p = experiment_dir_path m @ [Max (set names)] \<longrightarrow>
            (case get_last_epoch_index m' fs' p of
               Inl e \<Rightarrow> scan_experiment_dir m fs = (Inl e, m, fs)
             | Inr l \<Rightarrow> l \<noteq> epochs_per_run m - 1 \<longrightarrow>
                 scan_experiment_dir m fs =
                   (Inr (), m\<lparr>current_run_dir_path := Some p, start_epoch := Some (l + 1)\<rparr>, fs)))"
proof (intro conjI impI allI)
  show g: "get_last_epoch_index m fs p = get_last_epoch_index m' fs' p"
    using assms by (rule get_last_epoch_index_frame)
  show "is_run_completed m fs p = is_run_completed m' fs' p" if "epochs_per_run m = epochs_per_run m'"
    unfolding is_run_completed_def is_checkpoint_dir_full_def g that by (rule refl)
  show "\<exists>e. get_last_epoch_index m fs p = Inl e \<and> is_run_completed m fs p = Inl e"
    if "\<exists>d \<in> set [''model'', ''optimizer'', ''scheduler'']. \<not> isdir fs (p @ [d])"
    using get_last_epoch_index_absent [OF that, of m]
    by (auto simp: is_run_completed_def is_checkpoint_dir_full_def)
  fix names
  assume a: "listdir fs (experiment_dir_path m) = Inr names \<and> names \<noteq> []
              \<and> p = experiment_dir_path m @ [Max (set names)]"
  then have s: "scan_experiment_dir m fs =
           (case get_last_epoch_index m fs p of
              Inl e \<Rightarrow> (Inl e, m, fs)
            | Inr l \<Rightarrow>
                if l = epochs_per_run m - 1 then
                  (case get_run_index_from_path p of
                     Inl e \<Rightarrow> (Inl e, m, fs)
                   | Inr i \<Rightarrow> make_run_dir m (i + 1) fs)
                else (Inr (), m\<lparr>current_run_dir_path := Some p, start_epoch := Some (l + 1)\<rparr>, fs))"
    using scan_last_run [of fs m names p] by blast
  show "case get_last_epoch_index m' fs' p of
               Inl e \<Rightarrow> scan_experiment_dir m fs = (Inl e, m, fs)
             | Inr l \<Rightarrow> l \<noteq> epochs_per_run m - 1 \<longrightarrow>
                 scan_experiment_dir m fs =
                   (Inr (), m\<lparr>current_run_dir_path := Some p, start_epoch := Some (l + 1)\<rparr>, fs)"
    using s g by (simp split: sum.splits)
qed

theorem fixed_directories_only_witness:
  "scan_experiment_dir manager_ema fs_ema =
     (Inr (), manager_ema\<lparr>current_run_dir_path := Some [''exp'', ''run_00''], start_epoch := Some 2\<rparr>, fs_ema)
   \<and> dir_get_last_epoch_index fs_ema [''exp'', ''run_00'', ''ema''] = Inr (- 1)
   \<and> get_last_epoch_index manager_three fs_three_components [''exp'', ''run_00''] = Inr 1
   \<and> scan_experiment_dir manager_two fs_two_components =
     (Inl NotADirectoryError, manager_two, fs_two_components)"
proof -
  let ?p = "[''exp'', ''run_00'']"
  have d: "dir_names fs_ema (?p @ [''model'']) = dir_names fs_three_components (?p @ [''model''])"
    "dir_names fs_ema (?p @ [''optimizer'']) = dir_names fs_three_components (?p @ [''optimizer''])"
    "dir_names fs_ema (?p @ [''scheduler'']) = dir_names fs_three_components (?p @ [''scheduler''])"
    by code_simp+
  have h: "\<forall>d \<in> set [''model'', ''optimizer'', ''scheduler''].
      dir_names fs_ema (?p @ [d]) = dir_names fs_three_components (?p @ [d])"
  proof
    fix x assume "x \<in> set [''model'', ''optimizer'', ''scheduler'']"
    then consider "x = ''model''" | "x = ''optimizer''" | "x = ''scheduler''" by auto
    then show "dir_names fs_ema (?p @ [x]) = dir_names fs_three_components (?p @ [x])"
      using d by cases blast+
  qed
  have l: "listdir fs_ema (experiment_dir_path manager_ema) = Inr [''run_00'']" by code_simp
  have r: "?p = experiment_dir_path manager_ema @ [Max (set [''run_00''])]"
    by (simp add: manager_ema_def)
  have n: "[''run_00''] \<noteq> ([] :: string list)" by simp
  have g: "get_last_epoch_index manager_three fs_three_components ?p = Inr 1" by code_simp
  have e: "epochs_per_run manager_ema = 3" by (simp add: manager_ema_def)
  have x: "dir_get_last_epoch_index fs_ema [''exp'', ''run_00'', ''ema''] = Inr (- 1)" by code_simp
  have t: "scan_experiment_dir manager_two fs_two_components =
     (Inl NotADirectoryError, manager_two, fs_two_components)" by code_simp
  have "case get_last_epoch_index manager_three fs_three_components ?p of
               Inl e \<Rightarrow> scan_experiment_dir manager_ema fs_ema = (Inl e, manager_ema, fs_ema)
             | Inr l \<Rightarrow> l \<noteq> epochs_per_run manager_ema - 1 \<longrightarrow>
                 scan_experiment_dir manager_ema fs_ema =
                   (Inr (), manager_ema\<lparr>current_run_dir_path := Some ?p, start_epoch := Some (l + 1)\<rparr>, fs_ema)"
    using fixed_directories_only [OF h, of manager_ema manager_three] l n r by blast
  then have "scan_experiment_dir manager_ema fs_ema =
     (Inr (), manager_ema\<lparr>current_run_dir_path := Some ?p, start_epoch := Some 2\<rparr>, fs_ema)"
    by (simp add: g e)
  then show ?thesis using x g t by simp
qed

section \<open>The first run\<close>

lemma dir_names_dir: "isdir fs d \<Longrightarrow> dir_names fs d = Some {n. lookup fs (d @ [n]) \<noteq> None}"
proof -
  assume "isdir fs d"
  then obtain names where l: "listdir fs d = Inr names" using listdir_dir by blast
  then show ?thesis using listdir_names(1) [OF l] by (simp add: dir_names_def)
qed

lemma run_dir_name_0: "run_dir_name 0 = ''run_00''"
proof -
  have "dec 0 = ''0''" by (subst dec.simps) (simp add: digit_char_def)
  then show ?thesis by (simp add: run_dir_name_def fmt02d_def)
qed

lemma wf_fs_absent_below:
  assumes "wf_fs fs" "lookup fs p = None"
  shows "lookup fs (p @ n # r) = None"
proof (induction r rule: rev_induct)
  case Nil
  show ?case
  proof (rule ccontr)
    assume "lookup fs (p @ [n]) \<noteq> None"
    then have "isdir fs (butlast (p @ [n]))" using assms(1) by (rule wf_fs_parent [rotated])
    then show False using assms(2) by (simp add: isdir_def)
  qed
next
  case (snoc x xs)
  show ?case
  proof (rule ccontr)
    assume "lookup fs (p @ n # xs @ [x]) \<noteq> None"
    then have "isdir fs (butlast (p @ n # xs @ [x]))" using assms(1) by (rule wf_fs_parent [rotated])
    then show False using snoc by (simp add: isdir_def butlast_append)
  qed
qed

text \<open>
  C5. On a well-formed file system whose root directory exists and is empty, for every
  budget and every dictionary of tracked modules whose keys are plain file names (a
  dictionary's keys are distinct), the constructor returns a manager with resume epoch 0
  whose current run is \<^verbatim>\<open>run_00\<close>, of run index 0. Afterwards the root holds \<^verbatim>\<open>run_00\<close>
  alone, \<^verbatim>\<open>run_00\<close> holds one entry per tracked name and nothing else, each of these is an
  empty directory, and what was on disk before is untouched.
\<close>

theorem init_empty_root:
  assumes "wf_fs fs" "listdir fs root = Inr []" "distinct (map fst modules)"
    and "\<forall>n \<in> set (map fst modules). plain_name n"
  shows "\<exists>fs'. init modules root B v fs =
            (Inr \<lparr>modules_to_track = modules, experiment_dir_path = root, epochs_per_run = B,
                  verbose = v, start_epoch = Some 0,
                  current_run_dir_path = Some (root @ [''run_00''])\<rparr>, fs')
          \<and> get_run_index_from_path (root @ [''run_00'']) = Inr 0
          \<and> dir_names fs' root = Some {''run_00''}
          \<and> dir_names fs' (root @ [''run_00'']) = Some (set (map fst modules))
          \<and> (\<forall>n \<in> set (map fst modules). listdir fs' (root @ [''run_00'', n]) = Inr [])
          \<and> (\<forall>q. lookup fs q \<noteq> None \<longrightarrow> lookup fs' q = lookup fs q)"
proof -
  let ?m = "\<lparr>modules_to_track = modules, experiment_dir_path = root, epochs_per_run = B,
             verbose = v, start_epoch = None, current_run_dir_path = None\<rparr>"
  let ?run = "root @ [''run_00'']"
  have root: "isdir fs root" using assms(2) by (rule listdir_isdir)
  have none: "lookup fs (root @ [n]) = None" for n
    using assms(2) by (simp add: listdir_empty_iff)
  have below: "lookup fs (?run @ n # r) = None" for n r
    using wf_fs_absent_below [OF assms(1) none [of "''run_00''"]] by simp
  have "lookup fs root \<noteq> None" using root by (simp add: isdir_def)
  then have "isdir fs (butlast root)" using assms(1) by (rule wf_fs_parent [rotated])
  then have mk: "makedirs True root fs = (Inr (), fs)" using root by (simp add: makedirs_exist_ok)
  have sc: "scan_experiment_dir ?m fs = make_run_dir ?m 0 fs"
    using assms(2) by (simp add: scan_empty_root)
  have "\<exists>fs'. make_run_dir ?m 0 fs =
              (Inr (), ?m\<lparr>start_epoch := Some 0, current_run_dir_path := Some ?run\<rparr>, fs') \<and>
           (\<forall>q. lookup fs' q =
              (if q = ?run \<or> q \<in> (\<lambda>n. ?run @ [n]) ` fst ` set (modules_to_track ?m) then Some Dir
               else lookup fs q))"
  proof (rule make_run_dir_fresh)
    show "wf_fs fs" by fact
    show "isdir fs (experiment_dir_path ?m)" using root by simp
    show "lookup fs (experiment_dir_path ?m @ [run_dir_name 0]) = None"
      using none [of "''run_00''"] by (simp add: run_dir_name_0)
    show "distinct (map fst (modules_to_track ?m))" using assms(3) by simp
    show "?run = experiment_dir_path ?m @ [run_dir_name 0]" by (simp add: run_dir_name_0)
  qed
  then obtain fs' where r: "make_run_dir ?m 0 fs =
              (Inr (), ?m\<lparr>start_epoch := Some 0, current_run_dir_path := Some ?run\<rparr>, fs')"
    and l': "\<forall>q. lookup fs' q =
              (if q = ?run \<or> q \<in> (\<lambda>n. ?run @ [n]) ` fst ` set (modules_to_track ?m) then Some Dir
               else lookup fs q)"
    by blast
  have l: "\<And>q. lookup fs' q =
              (if q = ?run \<or> q \<in> (\<lambda>n. ?run @ [n]) ` fst ` set modules then Some Dir
               else lookup fs q)"
    using l' by simp
  have i: "init modules root B v fs =
            (Inr \<lparr>modules_to_track = modules, experiment_dir_path = root, epochs_per_run = B,
                  verbose = v, start_epoch = Some 0,
                  current_run_dir_path = Some ?run\<rparr>, fs')"
    by (simp add: init_def mk sc r)
  have x: "get_run_index_from_path ?run = Inr 0"
    using get_run_index_run_dir_name [of root 0] by (simp add: run_dir_name_0)
  have d1: "isdir fs' root" using root l by (auto simp: isdir_def)
  have "lookup fs' (root @ [n]) \<noteq> None \<longleftrightarrow> n = ''run_00''" for n
  proof -
    have "root @ [n] \<notin> (\<lambda>k. ?run @ [k]) ` fst ` set modules" by auto
    then show ?thesis using l none [of n] by simp
  qed
  then have "{n. lookup fs' (root @ [n]) \<noteq> None} = {''run_00''}" by blast
  then have n1: "dir_names fs' root = Some {''run_00''}" using d1 by (simp add: dir_names_dir)
  have d2: "isdir fs' ?run" using l by (simp add: isdir_def)
  have "lookup fs' (?run @ [n]) \<noteq> None \<longleftrightarrow> n \<in> fst ` set modules" for n
  proof -
    have "?run @ [n] \<in> (\<lambda>k. ?run @ [k]) ` fst ` set modules \<longleftrightarrow> n \<in> fst ` set modules"
      by (auto simp: image_iff)
    moreover have "?run @ [n] \<noteq> ?run" by simp
    ultimately show ?thesis using l below [of n "[]"] by simp
  qed
  then have "{n. lookup fs' (?run @ [n]) \<noteq> None} = set (map fst modules)" by auto
  then have n2: "dir_names fs' ?run = Some (set (map fst modules))"
    using d2 by (simp add: dir_names_dir)
  have n3: "\<forall>n \<in> set (map fst modules). listdir fs' (root @ [''run_00'', n]) = Inr []"
  proof
    fix n assume n: "n \<in> set (map fst modules)"
    have "isdir fs' (?run @ [n])" using l n by (simp add: isdir_def image_iff)
    moreover have "lookup fs' ((?run @ [n]) @ [k]) = None" for k
    proof -
      have "(?run @ [n]) @ [k] \<notin> (\<lambda>j. ?run @ [j]) ` fst ` set modules" by auto
      moreover have "(?run @ [n]) @ [k] \<noteq> ?run" by simp
      ultimately show ?thesis using l below [of n "[k]"] by simp
    qed
    ultimately show "listdir fs' (root @ [''run_00'', n]) = Inr []"
      using listdir_empty_iff [of fs' "?run @ [n]"] by simp
  qed
  have n4: "\<forall>q. lookup fs q \<noteq> None \<longrightarrow> lookup fs' q = lookup fs q"
  proof (intro allI impI)
    fix q assume q: "lookup fs q \<noteq> None"
    then have "q \<noteq> ?run" using none [of "''run_00''"] by auto
    moreover have "q \<notin> (\<lambda>n. ?run @ [n]) ` fst ` set modules"
    proof
      assume "q \<in> (\<lambda>n. ?run @ [n]) ` fst ` set modules"
      then obtain n where "q = ?run @ [n]" by blast
      then show False using q below [of n "[]"] by simp
    qed
    ultimately show "lookup fs' q = lookup fs q" using l by simp
  qed
  show ?thesis using i x n1 n2 n3 n4 by blast
qed

theorem init_empty_root_witness:
  "wf_fs fs_empty_root \<and> listdir fs_empty_root [''exp''] = Inr []
   \<and> (\<exists>fs'. init (modules_to_track manager_three) [''exp''] 3 True fs_empty_root =
         (Inr (manager_three\<lparr>start_epoch := Some 0, current_run_dir_path := Some [''exp'', ''run_00'']\<rparr>), fs')
       \<and> dir_names fs' [''exp'', ''run_00''] = Some {''model'', ''optimizer'', ''scheduler''}
       \<and> listdir fs' [''exp'', ''run_00'', ''model''] = Inr []
       \<and> listdir fs' [''exp'', ''run_00'', ''optimizer''] = Inr []
       \<and> listdir fs' [''exp'', ''run_00'', ''scheduler''] = Inr [])"
proof -
  let ?ms = "modules_to_track manager_three"
  have w: "wf_fs fs_empty_root" by code_simp
  have l: "listdir fs_empty_root [''exp''] = Inr []" by code_simp
  have d: "distinct (map fst ?ms)" by code_simp
  have p: "\<forall>n \<in> set (map fst ?ms). plain_name n" by code_simp
  have m: "\<lparr>modules_to_track = ?ms, experiment_dir_path = [''exp''],
       epochs_per_run = 3, verbose = True, start_epoch = Some 0,
       current_run_dir_path = Some ([''exp''] @ [''run_00''])\<rparr> =
      manager_three\<lparr>start_epoch := Some 0, current_run_dir_path := Some [''exp'', ''run_00'']\<rparr>"
    by (simp add: manager_three_def)
  have s: "set (map fst ?ms) = {''model'', ''optimizer'', ''scheduler''}"
    by (simp add: manager_three_def)
  obtain fs' where i: "init ?ms [''exp''] 3 True fs_empty_root =
            (Inr \<lparr>modules_to_track = ?ms, experiment_dir_path = [''exp''], epochs_per_run = 3,
                  verbose = True, start_epoch = Some 0,
                  current_run_dir_path = Some ([''exp''] @ [''run_00''])\<rparr>, fs')"
    and n: "dir_names fs' ([''exp''] @ [''run_00'']) = Some (set (map fst ?ms))"
    and e: "\<forall>n \<in> set (map fst ?ms). listdir fs' ([''exp''] @ [''run_00'', n]) = Inr []"
    using init_empty_root [OF w l d p, of 3 True] by blast
  have e1: "listdir fs' [''exp'', ''run_00'', ''model''] = Inr []"
    using e [unfolded s, THEN bspec, of "''model''"] by simp
  have e2: "listdir fs' [''exp'', ''run_00'', ''optimizer''] = Inr []"
    using e [unfolded s, THEN bspec, of "''optimizer''"] by simp
  have e3: "listdir fs' [''exp'', ''run_00'', ''scheduler''] = Inr []"
    using e [unfolded s, THEN bspec, of "''scheduler''"] by simp
  have n': "dir_names fs' [''exp'', ''run_00''] = Some {''model'', ''optimizer'', ''scheduler''}"
    using n unfolding s by simp
  have i': "init ?ms [''exp''] 3 True fs_empty_root =
         (Inr (manager_three\<lparr>start_epoch := Some 0, current_run_dir_path := Some [''exp'', ''run_00'']\<rparr>), fs')"
    using i unfolding m .
  show ?thesis using w l i' n' e1 e2 e3 by blast
qed

section \<open>Saving an epoch\<close>

lemma torch_save_Inr:
  "torch_save b p fs = Inr fs' \<Longrightarrow>
     fs' = AList.update p (File b) fs \<and> p \<noteq> [] \<and> lookup fs p \<noteq> Some Dir"
  by (auto simp: torch_save_def lookup_def split: option.splits entry.splits if_splits)

lemma torch_save_lookup:
  assumes "torch_save b p fs = Inr fs'"
  shows "lookup fs' q = (if q = p then Some (File b) else lookup fs q)"
  using torch_save_Inr [OF assms] by (simp add: lookup_update)

lemma torch_save_isdir:
  assumes "torch_save b p fs = Inr fs'"
  shows "isdir fs' q = isdir fs q"
  using torch_save_Inr [OF assms] torch_save_lookup [OF assms, of q] by (auto simp: isdir_def)

lemma save_modules_frame:
  assumes "save_modules h m mods fs = (r, fs')"
    and "start_epoch m = Some ep" "current_run_dir_path m = Some cur"
  shows "(\<forall>q. isdir fs' q = isdir fs q) \<and>
         (\<forall>q. q \<notin> (\<lambda>n. cur @ [n, epoch_file ep]) ` fst ` set mods \<longrightarrow> lookup fs' q = lookup fs q)"
  using assms(1)
proof (induction mods arbitrary: fs)
  case Nil
  then show ?case by simp
next
  case (Cons a mods)
  obtain n x where a: "a = (n, x)" by (cases a)
  let ?p = "cur @ [n, epoch_file ep]"
  show ?case
  proof (cases "state_dict h x")
    case (Inl e)
    then show ?thesis using Cons.prems a assms(2,3) by (simp add: get_checkpoint_module_path_def)
  next
    case (Inr b)
    show ?thesis
    proof (cases "torch_save b ?p fs")
      case (Inl e)
      then show ?thesis
        using Cons.prems a assms(2,3) Inr by (simp add: get_checkpoint_module_path_def epoch_file_def)
    next
      case s: (Inr fs1)
      then have r: "save_modules h m mods fs1 = (r, fs')"
        using Cons.prems a assms(2,3) Inr by (simp add: get_checkpoint_module_path_def epoch_file_def)
      have ih: "(\<forall>q. isdir fs' q = isdir fs1 q) \<and>
         (\<forall>q. q \<notin> (\<lambda>n. cur @ [n, epoch_file ep]) ` fst ` set mods \<longrightarrow> lookup fs' q = lookup fs1 q)"
        using Cons.IH [OF r] .
      show ?thesis
        using ih torch_save_isdir [OF s] torch_save_lookup [OF s] a by auto
    qed
  qed
qed

lemma save_modules_written:
  assumes "save_modules h m mods fs = (Inr (), fs')"
    and "start_epoch m = Some ep" "current_run_dir_path m = Some cur"
    and "distinct (map fst mods)"
  shows "\<forall>(n, x) \<in> set mods. \<exists>b. state_dict h x = Inr b \<and> lookup fs' (cur @ [n, epoch_file ep]) = Some (File b)"
  using assms(1,4)
proof (induction mods arbitrary: fs)
  case Nil
  then show ?case by simp
next
  case (Cons a mods)
  obtain n x where a: "a = (n, x)" by (cases a)
  let ?p = "cur @ [n, epoch_file ep]"
  obtain b where b: "state_dict h x = Inr b"
    using Cons.prems(1) a assms(2,3)
    by (cases "state_dict h x") (simp_all add: get_checkpoint_module_path_def)
  obtain fs1 where s: "torch_save b ?p fs = Inr fs1"
    using Cons.prems(1) a assms(2,3) b
    by (cases "torch_save b ?p fs") (simp_all add: get_checkpoint_module_path_def epoch_file_def)
  have r: "save_modules h m mods fs1 = (Inr (), fs')"
    using Cons.prems(1) a assms(2,3) b s by (simp add: get_checkpoint_module_path_def epoch_file_def)
  have ih: "\<forall>(n, x) \<in> set mods. \<exists>b. state_dict h x = Inr b \<and> lookup fs' (cur @ [n, epoch_file ep]) = Some (File b)"
    using Cons.IH [OF r] Cons.prems(2) by simp
  have "?p \<notin> (\<lambda>n. cur @ [n, epoch_file ep]) ` fst ` set mods"
    using Cons.prems(2) a by auto
  then have "lookup fs' ?p = lookup fs1 ?p"
    using save_modules_frame [OF r assms(2,3)] by blast
  then have "lookup fs' ?p = Some (File b)" using torch_save_lookup [OF s, of ?p] by simp
  then show ?case using ih a b by simp
qed

lemma save_modules_append:
  "save_modules h m (xs @ ys) fs =
     (case save_modules h m xs fs of (Inl e, fs1) \<Rightarrow> (Inl e, fs1) | (Inr u, fs1) \<Rightarrow> save_modules h m ys fs1)"
proof (induction xs arbitrary: fs)
  case Nil
  then show ?case by simp
next
  case (Cons a xs)
  obtain n x where a: "a = (n, x)" by (cases a)
  show ?case using Cons.IH unfolding a
    by (simp split: option.splits sum.splits)
qed

text \<open>
  C2. Let the tracked modules be \<open>pre\<close>, then the module \<open>x\<close> named \<open>n\<close>, then \<open>post\<close>, and
  let the writes of \<open>pre\<close> succeed. If the write of \<open>x\<close> fails, because \<^verbatim>\<open>state_dict\<close>
  raises or because \<^verbatim>\<open>torch.save\<close> does, then \<^verbatim>\<open>save_checkpoint\<close> raises that error and
  does not return normally; the manager, its cursor included, is exactly what it was; no
  directory has been made, so no run has been started; the only entries that can differ
  are the files of the current epoch of the modules of \<open>pre\<close>; and the paths a second call
  writes are those of the same epoch.
\<close>

theorem save_checkpoint_failed_write:
  assumes "modules_to_track m = pre @ (n, x) # post"
    and "start_epoch m = Some ep" "current_run_dir_path m = Some cur"
    and "save_modules h m pre fs = (Inr (), fs0)"
    and "state_dict h x = Inl e \<or>
         (\<exists>b. state_dict h x = Inr b \<and> torch_save b (cur @ [n, epoch_file ep]) fs0 = Inl e)"
  shows "save_checkpoint h m fs = (Inl e, m, fs0)
       \<and> fst (save_checkpoint h m fs) \<noteq> Inr ()
       \<and> (\<forall>q. isdir fs0 q = isdir fs q)
       \<and> (\<forall>q. q \<notin> (\<lambda>k. cur @ [k, epoch_file ep]) ` fst ` set pre \<longrightarrow> lookup fs0 q = lookup fs q)
       \<and> (\<forall>k. get_checkpoint_module_path m k ep = Inr (cur @ [k, epoch_file ep]))"
proof -
  have one: "save_modules h m ((n, x) # post) fs0 = (Inl e, fs0)"
    using assms(2,3,5)
    by (auto simp: get_checkpoint_module_path_def epoch_file_def)
  have "save_modules h m (modules_to_track m) fs = (Inl e, fs0)"
    unfolding assms(1) save_modules_append assms(4) using one by simp
  then have s: "save_checkpoint h m fs = (Inl e, m, fs0)"
    by (simp add: save_checkpoint_def)
  have f: "(\<forall>q. isdir fs0 q = isdir fs q) \<and>
         (\<forall>q. q \<notin> (\<lambda>n. cur @ [n, epoch_file ep]) ` fst ` set pre \<longrightarrow> lookup fs0 q = lookup fs q)"
    using save_modules_frame [OF assms(4,2,3)] .
  have g: "\<forall>k. get_checkpoint_module_path m k ep = Inr (cur @ [k, epoch_file ep])"
    using assms(3) by (simp add: get_checkpoint_module_path_def epoch_file_def)
  show ?thesis using s f g by simp
qed

theorem save_checkpoint_failed_write_witness:
  "save_checkpoint hooks_failing manager_at_2 fs_three_components =
     (Inl RuntimeError, manager_at_2,
      AList.update [''exp'', ''run_00'', ''model'', ''02.pth''] (File ''m'') fs_three_components)
   \<and> start_epoch manager_at_2 = Some 2
   \<and> fst (save_checkpoint hooks_plain manager_at_2 fs_three_components) = Inr ()"
proof -
  have m: "modules_to_track manager_at_2 = [(''model'', ''m'')] @ (''optimizer'', ''o'') # [(''scheduler'', ''s'')]"
    by (simp add: manager_at_2_def manager_three_def)
  have e: "start_epoch manager_at_2 = Some 2" by (simp add: manager_at_2_def)
  have c: "current_run_dir_path manager_at_2 = Some [''exp'', ''run_00'']" by (simp add: manager_at_2_def)
  have p: "save_modules hooks_failing manager_at_2 [(''model'', ''m'')] fs_three_components =
      (Inr (), AList.update [''exp'', ''run_00'', ''model'', ''02.pth''] (File ''m'') fs_three_components)"
    by code_simp
  have x: "state_dict hooks_failing ''o'' = Inl RuntimeError" by (simp add: hooks_failing_def)
  have ok: "fst (save_checkpoint hooks_plain manager_at_2 fs_three_components) = Inr ()" by code_simp
  show ?thesis
    using save_checkpoint_failed_write [OF m e c p, of RuntimeError] x e ok by simp
qed

section \<open>Advancing the cursor\<close>

lemma mkdir_Inr: "mkdir fs p = Inr fs' \<Longrightarrow> fs' = AList.update p Dir fs \<and> lookup fs p = None \<and> p \<noteq> []"
  by (auto simp: mkdir_def lookup_def split: option.splits entry.splits if_splits)

lemma makedirs_mono:
  "makedirs ex p fs = (r, fs') \<Longrightarrow> lookup fs q \<noteq> None \<Longrightarrow> lookup fs' q = lookup fs q"
proof (induction ex p fs arbitrary: r fs' rule: makedirs.induct)
  case (1 ex p fs)
  define rc where "rc =
     (if p \<noteq> [] \<and> lookup fs (butlast p) = None
      then (case makedirs ex (butlast p) fs of
              (Inl FileExistsError, f) \<Rightarrow> (Inr (), f)
            | other \<Rightarrow> other)
      else (Inr (), fs))"
  obtain r1 fs1 where rc: "rc = (r1, fs1)" by (cases rc)
  have l1: "lookup fs1 q = lookup fs q"
  proof (cases "p \<noteq> [] \<and> lookup fs (butlast p) = None")
    case False
    then show ?thesis using rc by (auto simp: rc_def)
  next
    case True
    obtain r0 f0 where m0: "makedirs ex (butlast p) fs = (r0, f0)" by (cases "makedirs ex (butlast p) fs")
    have "lookup f0 q = lookup fs q" using "1.IH" [OF True m0 "1.prems"(2)] .
    moreover have "fs1 = f0"
      using rc True m0 by (auto simp: rc_def split: sum.splits error.splits)
    ultimately show ?thesis by simp
  qed
  have res: "(r, fs') =
      (case r1 of
         Inl e \<Rightarrow> (Inl e, fs1)
       | Inr u \<Rightarrow>
           (case mkdir fs1 p of
              Inr fs2 \<Rightarrow> (Inr (), fs2)
            | Inl e \<Rightarrow> if \<not> ex \<or> \<not> isdir fs1 p then (Inl e, fs1) else (Inr (), fs1)))"
    using "1.prems"(1) rc unfolding makedirs.simps [of ex p fs] rc_def [symmetric] by simp
  show ?case
  proof (cases "fs' = fs1")
    case True
    then show ?thesis using l1 by simp
  next
    case False
    then obtain fs2 where k: "mkdir fs1 p = Inr fs2" "fs' = fs2"
      using res by (auto split: sum.splits if_splits)
    then have "fs' = AList.update p Dir fs1" "lookup fs1 p = None" "p \<noteq> []"
      using mkdir_Inr [OF k(1)] by simp_all
    then show ?thesis using l1 "1.prems"(2) by (auto simp: lookup_update)
  qed
qed

lemma makedirs_created:
  assumes "makedirs False p fs = (Inr (), fs')"
  shows "isdir fs' p \<and> lookup fs p = None"
proof -
  define rc where "rc =
     (if p \<noteq> [] \<and> lookup fs (butlast p) = None
      then (case makedirs False (butlast p) fs of
              (Inl FileExistsError, f) \<Rightarrow> (Inr (), f)
            | other \<Rightarrow> other)
      else (Inr (), fs))"
  obtain r1 fs1 where rc: "rc = (r1, fs1)" by (cases rc)
  have res: "(Inr (), fs') =
      (case r1 of
         Inl e \<Rightarrow> (Inl e, fs1)
       | Inr u \<Rightarrow>
           (case mkdir fs1 p of
              Inr fs2 \<Rightarrow> (Inr (), fs2)
            | Inl e \<Rightarrow> if \<not> False \<or> \<not> isdir fs1 p then (Inl e, fs1) else (Inr (), fs1)))"
    using assms rc unfolding makedirs.simps [of False p fs] rc_def [symmetric] by simp
  then obtain k: "mkdir fs1 p = Inr fs'"
    by (auto split: sum.splits if_splits)
  have u: "fs' = AList.update p Dir fs1" "lookup fs1 p = None" "p \<noteq> []"
    using mkdir_Inr [OF k] by simp_all
  have "fs1 = fs \<or> (\<exists>r0. makedirs False (butlast p) fs = (r0, fs1))"
    using rc by (auto simp: rc_def split: if_splits sum.splits error.splits prod.splits)
  then have "lookup fs p \<noteq> None \<longrightarrow> lookup fs1 p = lookup fs p"
    using makedirs_mono by blast
  then have "lookup fs p = None" using u(2) by auto
  moreover have "isdir fs' p" using u by (simp add: isdir_def lookup_update)
  ultimately show ?thesis by simp
qed

lemma isdir_mono:
  "(\<And>q. lookup fs q \<noteq> None \<Longrightarrow> lookup fs' q = lookup fs q) \<Longrightarrow> isdir fs p \<Longrightarrow> isdir fs' p"
  by (simp add: isdir_def)

lemma make_checkpoint_dirs_mono:
  "make_checkpoint_dirs run names fs = (r, fs') \<Longrightarrow> lookup fs q \<noteq> None \<Longrightarrow> lookup fs' q = lookup fs q"
proof (induction names arbitrary: fs)
  case Nil
  then show ?case by simp
next
  case (Cons n names)
  obtain r1 fs1 where m: "makedirs False (run @ [n]) fs = (r1, fs1)"
    by (cases "makedirs False (run @ [n]) fs")
  have l1: "lookup fs1 q = lookup fs q" using makedirs_mono [OF m Cons.prems(2)] .
  show ?case
  proof (cases r1)
    case (Inl e)
    then show ?thesis using Cons.prems(1) m l1 by simp
  next
    case (Inr u)
    then have "make_checkpoint_dirs run names fs1 = (r, fs')" using Cons.prems(1) m by simp
    then have "lookup fs' q = lookup fs1 q" using Cons.IH l1 Cons.prems(2) by simp
    then show ?thesis using l1 by simp
  qed
qed

lemma make_checkpoint_dirs_created:
  "make_checkpoint_dirs run names fs = (Inr (), fs') \<Longrightarrow> \<forall>n \<in> set names. isdir fs' (run @ [n])"
proof (induction names arbitrary: fs)
  case Nil
  then show ?case by simp
next
  case (Cons n names)
  obtain r1 fs1 where m: "makedirs False (run @ [n]) fs = (r1, fs1)"
    by (cases "makedirs False (run @ [n]) fs")
  have r1: "r1 = Inr ()" using Cons.prems m by (cases r1) simp_all
  then have r: "make_checkpoint_dirs run names fs1 = (Inr (), fs')" using Cons.prems m by simp
  have "isdir fs1 (run @ [n])" using makedirs_created m r1 by blast
  then have "lookup fs1 (run @ [n]) \<noteq> None" by (simp add: isdir_def)
  then have "lookup fs' (run @ [n]) = lookup fs1 (run @ [n])"
    using make_checkpoint_dirs_mono [OF r] by blast
  then have "isdir fs' (run @ [n])" using \<open>isdir fs1 (run @ [n])\<close> by (simp add: isdir_def)
  then show ?case using Cons.IH [OF r] by simp
qed

lemma make_run_dir_success:
  assumes "make_run_dir m i fs = (Inr (), m', fs')"
    and "run = experiment_dir_path m @ [run_dir_name i]"
  shows "m' = m\<lparr>start_epoch := Some 0, current_run_dir_path := Some run\<rparr>"
    and "lookup fs run = None" and "isdir fs' run"
    and "\<forall>n \<in> fst ` set (modules_to_track m). isdir fs' (run @ [n])"
    and "\<And>q. lookup fs q \<noteq> None \<Longrightarrow> lookup fs' q = lookup fs q"
proof -
  obtain r1 fs1 where m1: "makedirs False run fs = (r1, fs1)" by (cases "makedirs False run fs")
  have r1: "r1 = Inr ()" using assms m1 by (cases r1) (simp_all add: make_run_dir_def)
  obtain r2 fs2 where m2: "make_checkpoint_dirs run (map fst (modules_to_track m)) fs1 = (r2, fs2)"
    by (cases "make_checkpoint_dirs run (map fst (modules_to_track m)) fs1")
  have r2: "r2 = Inr ()" using assms m1 r1 m2 by (cases r2) (simp_all add: make_run_dir_def)
  have e: "fs' = fs2" "m' = m\<lparr>start_epoch := Some 0, current_run_dir_path := Some run\<rparr>"
    using assms m1 r1 m2 r2 by (simp_all add: make_run_dir_def)
  show "m' = m\<lparr>start_epoch := Some 0, current_run_dir_path := Some run\<rparr>" by (rule e(2))
  have c: "isdir fs1 run" "lookup fs run = None" using makedirs_created m1 r1 by blast+
  show "lookup fs run = None" by (rule c(2))
  have "lookup fs1 run \<noteq> None" using c(1) by (simp add: isdir_def)
  then have "lookup fs2 run = lookup fs1 run" using make_checkpoint_dirs_mono [OF m2] by blast
  then show "isdir fs' run" using c(1) e(1) by (simp add: isdir_def)
  show "\<forall>n \<in> fst ` set (modules_to_track m). isdir fs' (run @ [n])"
    using make_checkpoint_dirs_created [of run "map fst (modules_to_track m)" fs1 fs2] m2 r2 e(1)
    by simp
  fix q assume q: "lookup fs q \<noteq> None"
  have "lookup fs1 q = lookup fs q" using makedirs_mono [OF m1 q] .
  moreover have "lookup fs2 q = lookup fs1 q" using make_checkpoint_dirs_mono [OF m2] q calculation by simp
  ultimately show "lookup fs' q = lookup fs q" using e(1) by simp
qed

text \<open>
  C3. Whenever \<^verbatim>\<open>save_checkpoint\<close> returns normally from the cursor \<open>(cur, ep)\<close>, with the keys
  of the tracked dictionary distinct, every tracked module's file of epoch \<open>ep\<close> is on disk
  afterwards and holds that module's state dictionary. If \<open>ep + 1\<close> is not the budget, the
  manager differs only by its epoch, now \<open>ep + 1\<close>, and no directory has appeared. If
  \<open>ep + 1\<close> is the budget, the epoch is 0 and the current run is the directory of run index
  one more than the index of \<open>cur\<close>: a directory that did not exist before, with one
  sub-directory per tracked name.
\<close>

theorem save_checkpoint_advances:
  assumes "save_checkpoint h m fs = (Inr (), m', fs')"
    and "start_epoch m = Some ep" "current_run_dir_path m = Some cur"
    and "distinct (map fst (modules_to_track m))"
  shows "(\<forall>(n, x) \<in> set (modules_to_track m).
            \<exists>b. state_dict h x = Inr b \<and> lookup fs' (cur @ [n, epoch_file ep]) = Some (File b))
       \<and> (ep + 1 \<noteq> epochs_per_run m \<longrightarrow>
            m' = m\<lparr>start_epoch := Some (ep + 1)\<rparr> \<and> (\<forall>q. isdir fs' q = isdir fs q))
       \<and> (ep + 1 = epochs_per_run m \<longrightarrow>
            (\<exists>i. get_run_index_from_path cur = Inr i
               \<and> m' = m\<lparr>start_epoch := Some 0,
                         current_run_dir_path := Some (experiment_dir_path m @ [run_dir_name (i + 1)])\<rparr>
               \<and> get_run_index_from_path (experiment_dir_path m @ [run_dir_name (i + 1)]) = Inr (i + 1)
               \<and> \<not> isdir fs (experiment_dir_path m @ [run_dir_name (i + 1)])
               \<and> isdir fs' (experiment_dir_path m @ [run_dir_name (i + 1)])
               \<and> (\<forall>n \<in> fst ` set (modules_to_track m).
                     isdir fs' (experiment_dir_path m @ [run_dir_name (i + 1), n]))))"
proof -
  obtain r1 fs1 where s: "save_modules h m (modules_to_track m) fs = (r1, fs1)"
    by (cases "save_modules h m (modules_to_track m) fs")
  have r1: "r1 = Inr ()" using assms(1) s by (cases r1) (simp_all add: save_checkpoint_def)
  have w: "\<forall>(n, x) \<in> set (modules_to_track m).
            \<exists>b. state_dict h x = Inr b \<and> lookup fs1 (cur @ [n, epoch_file ep]) = Some (File b)"
    using save_modules_written [OF s [unfolded r1] assms(2,3,4)] .
  have fr: "\<forall>q. isdir fs1 q = isdir fs q"
    using save_modules_frame [OF s assms(2,3)] by blast
  let ?m1 = "m\<lparr>start_epoch := Some (ep + 1)\<rparr>"
  show ?thesis
  proof (cases "ep + 1 = epochs_per_run m")
    case False
    then have "m' = ?m1" "fs' = fs1"
      using assms(1,2) s r1 by (simp_all add: save_checkpoint_def)
    then show ?thesis using w fr False by simp
  next
    case True
    obtain i where i: "get_run_index_from_path cur = Inr i"
      using assms(1,2,3) s r1 True
      by (cases "get_run_index_from_path cur") (simp_all add: save_checkpoint_def)
    let ?new = "experiment_dir_path m @ [run_dir_name (i + 1)]"
    have mk: "make_run_dir ?m1 (i + 1) fs1 = (Inr (), m', fs')"
      using assms(1,2,3) s r1 True i by (simp add: save_checkpoint_def)
    have n: "?new = experiment_dir_path ?m1 @ [run_dir_name (i + 1)]" by simp
    note ms = make_run_dir_success [OF mk n]
    have m': "m' = m\<lparr>start_epoch := Some 0, current_run_dir_path := Some ?new\<rparr>"
      using ms(1) by simp
    have "lookup fs1 ?new = None" using ms(2) .
    then have "\<not> isdir fs1 ?new" by (simp add: isdir_def)
    then have nd: "\<not> isdir fs ?new" using fr by blast
    have d: "isdir fs' ?new" using ms(3) .
    have sub: "\<forall>n \<in> fst ` set (modules_to_track m). isdir fs' (?new @ [n])"
      using ms(4) by simp
    have w': "\<forall>(n, x) \<in> set (modules_to_track m).
            \<exists>b. state_dict h x = Inr b \<and> lookup fs' (cur @ [n, epoch_file ep]) = Some (File b)"
    proof (intro ballI, clarify)
      fix n x assume "(n, x) \<in> set (modules_to_track m)"
      then obtain b where b: "state_dict h x = Inr b" "lookup fs1 (cur @ [n, epoch_file ep]) = Some (File b)"
        using w by blast
      then have "lookup fs' (cur @ [n, epoch_file ep]) = lookup fs1 (cur @ [n, epoch_file ep])"
        using ms(5) [of "cur @ [n, epoch_file ep]"] by simp
      then show "\<exists>b. state_dict h x = Inr b \<and> lookup fs' (cur @ [n, epoch_file ep]) = Some (File b)"
        using b by simp
    qed
    have x: "get_run_index_from_path ?new = Inr (i + 1)" by (rule get_run_index_run_dir_name)
    show ?thesis using True w' i m' x nd d sub by simp
  qed
qed

theorem save_checkpoint_advances_witness:
  "fst (save_checkpoint hooks_plain manager_at_2 fs_three_components) = Inr ()
   \<and> fst (snd (save_checkpoint hooks_plain manager_at_2 fs_three_components)) =
       manager_three\<lparr>start_epoch := Some 0, current_run_dir_path := Some [''exp'', ''run_01'']\<rparr>
   \<and> isdir (snd (snd (save_checkpoint hooks_plain manager_at_2 fs_three_components)))
        [''exp'', ''run_01'', ''optimizer'']
   \<and> lookup (snd (snd (save_checkpoint hooks_plain manager_at_2 fs_three_components)))
        [''exp'', ''run_00'', ''optimizer'', ''02.pth''] = Some (File ''o'')
   \<and> save_checkpoint hooks_plain
        (manager_three\<lparr>start_epoch := Some 1, current_run_dir_path := Some [''exp'', ''run_00'']\<rparr>)
        fs_empty_root =
       (Inl RuntimeError,
        manager_three\<lparr>start_epoch := Some 1, current_run_dir_path := Some [''exp'', ''run_00'']\<rparr>,
        fs_empty_root)"
proof -
  obtain r m' fs' where s: "save_checkpoint hooks_plain manager_at_2 fs_three_components = (r, m', fs')"
    by (cases "save_checkpoint hooks_plain manager_at_2 fs_three_components")
  have "fst (save_checkpoint hooks_plain manager_at_2 fs_three_components) = Inr ()" by code_simp
  then have r: "r = Inr ()" using s by simp
  have e: "start_epoch manager_at_2 = Some 2" by (simp add: manager_at_2_def)
  have c: "current_run_dir_path manager_at_2 = Some [''exp'', ''run_00'']" by (simp add: manager_at_2_def)
  have d: "distinct (map fst (modules_to_track manager_at_2))" by code_simp
  have b: "2 + 1 = epochs_per_run manager_at_2" by (simp add: manager_at_2_def manager_three_def)
  have i0: "get_run_index_from_path [''exp'', ''run_00''] = Inr 0" by code_simp
  have n1: "run_dir_name (0 + 1) = ''run_01''" by code_simp
  have o: "(''optimizer'', ''o'') \<in> set (modules_to_track manager_at_2)"
    by (simp add: manager_at_2_def manager_three_def)
  have sd: "state_dict hooks_plain ''o'' = Inr ''o''" by (simp add: hooks_plain_def)
  have ef: "epoch_file 2 = ''02.pth''" by code_simp
  have root: "experiment_dir_path manager_at_2 = [''exp'']" by (simp add: manager_at_2_def manager_three_def)
  note t = save_checkpoint_advances [OF s [unfolded r] e c d]
  have f: "\<exists>b. state_dict hooks_plain ''o'' = Inr b \<and>
          lookup fs' ([''exp'', ''run_00''] @ [''optimizer'', epoch_file 2]) = Some (File b)"
    using t [THEN conjunct1] o by blast
  have g: "\<exists>i. get_run_index_from_path [''exp'', ''run_00''] = Inr i
               \<and> m' = manager_at_2\<lparr>start_epoch := Some 0,
                         current_run_dir_path := Some (experiment_dir_path manager_at_2 @ [run_dir_name (i + 1)])\<rparr>
               \<and> (\<forall>n \<in> fst ` set (modules_to_track manager_at_2).
                     isdir fs' (experiment_dir_path manager_at_2 @ [run_dir_name (i + 1), n]))"
    using t [THEN conjunct2, THEN conjunct2] b by blast
  then have g': "m' = manager_at_2\<lparr>start_epoch := Some 0, current_run_dir_path := Some [''exp'', ''run_01'']\<rparr>"
    "\<forall>n \<in> fst ` set (modules_to_track manager_at_2). isdir fs' [''exp'', ''run_01'', n]"
    unfolding i0 root using n1 by auto
  have m: "m' = manager_three\<lparr>start_epoch := Some 0, current_run_dir_path := Some [''exp'', ''run_01'']\<rparr>"
    using g'(1) by (simp add: manager_at_2_def)
  have dd: "isdir fs' [''exp'', ''run_01'', ''optimizer'']"
    using g'(2) o by force
  have ff: "lookup fs' [''exp'', ''run_00'', ''optimizer'', ''02.pth''] = Some (File ''o'')"
    using f sd ef by simp
  have z: "save_checkpoint hooks_plain
        (manager_three\<lparr>start_epoch := Some 1, current_run_dir_path := Some [''exp'', ''run_00'']\<rparr>)
        fs_empty_root =
       (Inl RuntimeError,
        manager_three\<lparr>start_epoch := Some 1, current_run_dir_path := Some [''exp'', ''run_00'']\<rparr>,
        fs_empty_root)" by code_simp
  show ?thesis using s r m dd ff z by simp
qed

section \<open>Loading the last checkpoint\<close>










section \<open>Run discovery\<close>





end
